theory Spec2Isabelle
  imports Main "HOL-Library.Word"
begin

section \<open>The packet lifecycle of the IBC channel keeper (x/ibc/04-channel/keeper/packet.go)\<close>

subsection \<open>Data model\<close>

type_synonym uint64 = "64 word"
type_synonym bytes = "8 word list"

text \<open>
  The packet interface \<open>exported.PacketI\<close>, as a record of what its getters return.
\<close>

record PacketI =
  GetSequence :: uint64
  GetTimeoutHeight :: uint64
  GetSourcePort :: string
  GetSourceChannel :: string
  GetDestPort :: string
  GetDestChannel :: string
  GetData :: bytes

text \<open>
  Modelled from the spec: the channel state, the channel ordering and the connection state
  are enumerations declared in packages \<open>04-channel/exported\<close> and
  \<open>03-connection/exported\<close>, which are not part of the sources at hand. The spec gives a
  channel the states INIT, TRYOPEN, OPEN, CLOSED, a connection the states UNINITIALIZED,
  INIT, TRYOPEN, OPEN, and an ordering the values ORDERED, UNORDERED and "any other
  ordering value" (the enumeration is an integer type in Go, so that the \<open>default\<close>
  branch of a \<open>switch\<close> over it is meaningful).
\<close>

datatype channel_state = INIT | TRYOPEN | OPEN | CLOSED

datatype order = ORDERED | UNORDERED | OtherOrder nat

datatype connection_state = UNINITIALIZED | CONN_INIT | CONN_TRYOPEN | CONN_OPEN

record Counterparty =
  PortID :: string
  ChannelID :: string

record Channel =
  State :: channel_state
  Ordering :: order
  Counterparty :: Counterparty
  ConnectionHops :: "string list"

record ConnectionEnd =
  GetState :: connection_state
  GetClientID :: string

record ClientState =
  GetLatestHeight :: uint64

subsection \<open>Errors and results\<close>

text \<open>
  The registered errors the keeper returns. \<open>sdkerrors.Wrap\<close> and \<open>Wrapf\<close> only attach a
  message to a registered error, which stays the error's identity; the model keeps the
  registered error and drops the message. \<open>ErrOther\<close> stands for the errors of the
  packages the keeper calls into (packet validation, proof verification).
\<close>

datatype error =
    ErrChannelNotFound
  | ErrInvalidChannelState
  | ErrInvalidPacket
  | ErrConnectionNotFound
  | ErrInvalidConnectionState
  | ErrConsensusStateNotFound
  | ErrPacketTimeout
  | ErrSequenceSendNotFound
  | ErrSequenceReceiveNotFound
  | ErrInvalidChannelOrdering
  | ErrOther string

text \<open>
  A Go panic is a result of its own, distinct from an error return: indexing an empty
  slice (\<open>channel.ConnectionHops[0]\<close>), calling a method of a nil interface
  (\<open>acknowledgement.GetBytes()\<close>) and the explicit \<open>panic(err)\<close>.
\<close>

datatype panic = IndexOutOfRange | NilDereference | PanicError error

datatype 'a result = Ok 'a | Err error | Panic panic

subsection \<open>The context: stores and the verifier log\<close>

text \<open>
  One call of the proof verifier, as recorded in the context: which method, and the port,
  channel and sequence it was asked about.
\<close>

datatype verifier_call =
    CallVerifyPacketCommitment string string uint64
  | CallVerifyPacketAcknowledgement string string uint64
  | CallVerifyNextSequenceRecv string string uint64

text \<open>
  \<open>sdk.Context\<close>: the block height, the registries of channels, connections and client
  states the keepers read, and the four keyspaces of the channel keeper. \<open>BlockHeight\<close>
  holds the 64 bits of the \<open>int64\<close> that \<open>ctx.BlockHeight()\<close> returns; the conversion
  \<open>uint64(...)\<close> leaves the bits as they are. \<open>verifierCalls\<close> is not part of any store: it
  records the calls made to the proof verifier.
\<close>

record Context =
  BlockHeight :: uint64
  channels :: "(string \<times> string) \<rightharpoonup> Channel"
  connections :: "string \<rightharpoonup> ConnectionEnd"
  clientStates :: "string \<rightharpoonup> ClientState"
  nextSequenceSends :: "(string \<times> string) \<rightharpoonup> uint64"
  nextSequenceRecvs :: "(string \<times> string) \<rightharpoonup> uint64"
  packetCommitments :: "(string \<times> string \<times> uint64) \<rightharpoonup> bytes"
  packetAcknowledgements :: "(string \<times> string \<times> uint64) \<rightharpoonup> bytes"
  verifierCalls :: "verifier_call list"

text \<open>
  Modelled from the spec: the store accessors of the channel keeper, the connection keeper
  and the client keeper are declared in files that are not part of the sources at hand.
  The spec (4.2 and 6) describes them as point lookups, writes and deletes keyed by
  \<open>(port_id, channel_id[, sequence])\<close>: a sequence getter returns "not found" when the
  counter was never set, \<open>get_packet_commitment\<close> returns empty when there is none, and
  deleting an absent key is a no-op.
\<close>

definition GetChannel :: "Context \<Rightarrow> string \<Rightarrow> string \<Rightarrow> Channel option" where
  "GetChannel ctx portID channelID = channels ctx (portID, channelID)"

definition GetConnection :: "Context \<Rightarrow> string \<Rightarrow> ConnectionEnd option" where
  "GetConnection ctx connectionID = connections ctx connectionID"

definition GetClientState :: "Context \<Rightarrow> string \<Rightarrow> ClientState option" where
  "GetClientState ctx clientID = clientStates ctx clientID"

definition GetNextSequenceSend :: "Context \<Rightarrow> string \<Rightarrow> string \<Rightarrow> uint64 option" where
  "GetNextSequenceSend ctx portID channelID = nextSequenceSends ctx (portID, channelID)"

definition SetNextSequenceSend :: "Context \<Rightarrow> string \<Rightarrow> string \<Rightarrow> uint64 \<Rightarrow> Context" where
  "SetNextSequenceSend ctx portID channelID sequence =
     ctx\<lparr>nextSequenceSends := (nextSequenceSends ctx)((portID, channelID) \<mapsto> sequence)\<rparr>"

definition GetNextSequenceRecv :: "Context \<Rightarrow> string \<Rightarrow> string \<Rightarrow> uint64 option" where
  "GetNextSequenceRecv ctx portID channelID = nextSequenceRecvs ctx (portID, channelID)"

definition SetNextSequenceRecv :: "Context \<Rightarrow> string \<Rightarrow> string \<Rightarrow> uint64 \<Rightarrow> Context" where
  "SetNextSequenceRecv ctx portID channelID sequence =
     ctx\<lparr>nextSequenceRecvs := (nextSequenceRecvs ctx)((portID, channelID) \<mapsto> sequence)\<rparr>"

definition GetPacketCommitment :: "Context \<Rightarrow> string \<Rightarrow> string \<Rightarrow> uint64 \<Rightarrow> bytes" where
  "GetPacketCommitment ctx portID channelID sequence =
     (case packetCommitments ctx (portID, channelID, sequence) of
        None \<Rightarrow> []
      | Some bz \<Rightarrow> bz)"

definition SetPacketCommitment ::
  "Context \<Rightarrow> string \<Rightarrow> string \<Rightarrow> uint64 \<Rightarrow> bytes \<Rightarrow> Context" where
  "SetPacketCommitment ctx portID channelID sequence commitmentHash =
     ctx\<lparr>packetCommitments :=
           (packetCommitments ctx)((portID, channelID, sequence) \<mapsto> commitmentHash)\<rparr>"

definition deletePacketCommitment :: "Context \<Rightarrow> string \<Rightarrow> string \<Rightarrow> uint64 \<Rightarrow> Context" where
  "deletePacketCommitment ctx portID channelID sequence =
     ctx\<lparr>packetCommitments := (packetCommitments ctx)((portID, channelID, sequence) := None)\<rparr>"

definition SetPacketAcknowledgement ::
  "Context \<Rightarrow> string \<Rightarrow> string \<Rightarrow> uint64 \<Rightarrow> bytes \<Rightarrow> Context" where
  "SetPacketAcknowledgement ctx portID channelID sequence ackHash =
     ctx\<lparr>packetAcknowledgements :=
           (packetAcknowledgements ctx)((portID, channelID, sequence) \<mapsto> ackHash)\<rparr>"

text \<open>The four keyspaces of the channel keeper, taken together.\<close>

definition keyspaces ::
  "Context \<Rightarrow> ((string \<times> string) \<rightharpoonup> uint64) \<times> ((string \<times> string) \<rightharpoonup> uint64) \<times>
     ((string \<times> string \<times> uint64) \<rightharpoonup> bytes) \<times> ((string \<times> string \<times> uint64) \<rightharpoonup> bytes)" where
  "keyspaces ctx =
     (nextSequenceSends ctx, nextSequenceRecvs ctx, packetCommitments ctx,
      packetAcknowledgements ctx)"

subsection \<open>The keeper's collaborators\<close>

text \<open>
  Modelled from the spec: the functions the keeper calls that are declared outside the
  sources at hand are fields of the keeper. \<open>ValidateBasic\<close> is the packet's structural
  validation, \<open>CommitPacket\<close> and \<open>CommitAcknowledgement\<close> are the commitment codec
  (\<open>types.CommitPacket\<close>, \<open>types.CommitAcknowledgement\<close>; the acknowledgement may be
  absent), and the three \<open>Verify\<close> functions are the proof verifier of the connection
  keeper, which answers pass (\<open>None\<close>) or fail with an error and writes nothing. The type
  \<open>'p\<close> is the proof (\<open>commitment.ProofI\<close>).
\<close>

record 'p Keeper =
  ValidateBasic :: "PacketI \<Rightarrow> error option"
  CommitPacket :: "bytes \<Rightarrow> bytes"
  CommitAcknowledgement :: "bytes option \<Rightarrow> bytes"
  VerifyPacketCommitment ::
    "Context \<Rightarrow> ConnectionEnd \<Rightarrow> uint64 \<Rightarrow> 'p \<Rightarrow> string \<Rightarrow> string \<Rightarrow> uint64 \<Rightarrow> bytes \<Rightarrow> error option"
  VerifyPacketAcknowledgement ::
    "Context \<Rightarrow> ConnectionEnd \<Rightarrow> uint64 \<Rightarrow> 'p \<Rightarrow> string \<Rightarrow> string \<Rightarrow> uint64 \<Rightarrow> bytes \<Rightarrow> error option"
  VerifyNextSequenceRecv ::
    "Context \<Rightarrow> ConnectionEnd \<Rightarrow> uint64 \<Rightarrow> 'p \<Rightarrow> string \<Rightarrow> string \<Rightarrow> uint64 \<Rightarrow> error option"

definition logCall :: "Context \<Rightarrow> verifier_call \<Rightarrow> Context" where
  "logCall ctx c = ctx\<lparr>verifierCalls := verifierCalls ctx @ [c]\<rparr>"

subsection \<open>SendPacket\<close>

definition SendPacket :: "'p Keeper \<Rightarrow> Context \<Rightarrow> PacketI \<Rightarrow> unit result \<times> Context" where
  "SendPacket k ctx packet =
     (case ValidateBasic k packet of
        Some err \<Rightarrow> (Err err, ctx)
      | None \<Rightarrow>
     (case GetChannel ctx (GetSourcePort packet) (GetSourceChannel packet) of
        None \<Rightarrow> (Err ErrChannelNotFound, ctx)
      | Some channel \<Rightarrow>
     if State channel = CLOSED then (Err ErrInvalidChannelState, ctx)
     else if GetDestPort packet \<noteq> PortID (Counterparty channel) then (Err ErrInvalidPacket, ctx)
     else if GetDestChannel packet \<noteq> ChannelID (Counterparty channel)
       then (Err ErrInvalidPacket, ctx)
     else
     (case ConnectionHops channel of
        [] \<Rightarrow> (Panic IndexOutOfRange, ctx)
      | hop # _ \<Rightarrow>
     (case GetConnection ctx hop of
        None \<Rightarrow> (Err ErrConnectionNotFound, ctx)
      | Some connectionEnd \<Rightarrow>
     if GetState connectionEnd = UNINITIALIZED then (Err ErrInvalidConnectionState, ctx)
     else
     (case GetClientState ctx (GetClientID connectionEnd) of
        None \<Rightarrow> (Err ErrConsensusStateNotFound, ctx)
      | Some clientState \<Rightarrow>
     if GetLatestHeight clientState \<ge> GetTimeoutHeight packet then (Err ErrPacketTimeout, ctx)
     else
     (case GetNextSequenceSend ctx (GetSourcePort packet) (GetSourceChannel packet) of
        None \<Rightarrow> (Err ErrSequenceSendNotFound, ctx)
      | Some nextSequenceSend \<Rightarrow>
     if GetSequence packet \<noteq> nextSequenceSend then (Err ErrInvalidPacket, ctx)
     else
       (Ok (),
        SetPacketCommitment
          (SetNextSequenceSend ctx (GetSourcePort packet) (GetSourceChannel packet)
             (nextSequenceSend + 1))
          (GetSourcePort packet) (GetSourceChannel packet) (GetSequence packet)
          (CommitPacket k (GetData packet)))))))))"

subsection \<open>RecvPacket\<close>

definition RecvPacket ::
  "'p Keeper \<Rightarrow> Context \<Rightarrow> PacketI \<Rightarrow> 'p \<Rightarrow> uint64 \<Rightarrow> PacketI result \<times> Context" where
  "RecvPacket k ctx packet proof proofHeight =
     (case GetChannel ctx (GetDestPort packet) (GetDestChannel packet) of
        None \<Rightarrow> (Err ErrChannelNotFound, ctx)
      | Some channel \<Rightarrow>
     if State channel \<noteq> OPEN then (Err ErrInvalidChannelState, ctx)
     else if GetSourcePort packet \<noteq> PortID (Counterparty channel)
       then (Err ErrInvalidPacket, ctx)
     else if GetSourceChannel packet \<noteq> ChannelID (Counterparty channel)
       then (Err ErrInvalidPacket, ctx)
     else
     (case ConnectionHops channel of
        [] \<Rightarrow> (Panic IndexOutOfRange, ctx)
      | hop # _ \<Rightarrow>
     (case GetConnection ctx hop of
        None \<Rightarrow> (Err ErrConnectionNotFound, ctx)
      | Some connectionEnd \<Rightarrow>
     if GetState connectionEnd \<noteq> CONN_OPEN then (Err ErrInvalidConnectionState, ctx)
     else if BlockHeight ctx \<ge> GetTimeoutHeight packet then (Err ErrPacketTimeout, ctx)
     else
     (case VerifyPacketCommitment k ctx connectionEnd proofHeight proof
             (GetSourcePort packet) (GetSourceChannel packet) (GetSequence packet)
             (CommitPacket k (GetData packet)) of
        Some err \<Rightarrow>
          (Err err,
           logCall ctx (CallVerifyPacketCommitment
             (GetSourcePort packet) (GetSourceChannel packet) (GetSequence packet)))
      | None \<Rightarrow>
          (Ok packet,
           logCall ctx (CallVerifyPacketCommitment
             (GetSourcePort packet) (GetSourceChannel packet) (GetSequence packet)))))))"

subsection \<open>PacketExecuted\<close>

text \<open>
  The acknowledgement is an interface value that may be nil: \<open>None\<close> here. The write of
  the acknowledgement comes first, as in the source; the ordered branch reads the counter
  after it.
\<close>

definition PacketExecuted ::
  "'p Keeper \<Rightarrow> Context \<Rightarrow> PacketI \<Rightarrow> bytes option \<Rightarrow> unit result \<times> Context" where
  "PacketExecuted k ctx packet acknowledgement =
     (case GetChannel ctx (GetDestPort packet) (GetDestChannel packet) of
        None \<Rightarrow> (Err ErrChannelNotFound, ctx)
      | Some channel \<Rightarrow>
     if State channel \<noteq> OPEN then (Err ErrInvalidChannelState, ctx)
     else
     (let ctx1 =
        (if acknowledgement \<noteq> None \<or> Ordering channel = UNORDERED
         then SetPacketAcknowledgement ctx
                (GetDestPort packet) (GetDestChannel packet) (GetSequence packet)
                (CommitAcknowledgement k acknowledgement)
         else ctx)
      in
     if Ordering channel = ORDERED then
       (case GetNextSequenceRecv ctx1 (GetDestPort packet) (GetDestChannel packet) of
          None \<Rightarrow> (Err ErrSequenceReceiveNotFound, ctx1)
        | Some nextSequenceRecv \<Rightarrow>
       if GetSequence packet \<noteq> nextSequenceRecv then (Err ErrInvalidPacket, ctx1)
       else
         (Ok (),
          SetNextSequenceRecv ctx1 (GetDestPort packet) (GetDestChannel packet)
            (nextSequenceRecv + 1)))
     else (Ok (), ctx1)))"

subsection \<open>AcknowledgePacket and AcknowledgementExecuted\<close>

text \<open>
  The counterparty check of \<open>AcknowledgePacket\<close> compares the packet's source port and
  channel with the counterparty of the channel it looked up under that same source port
  and channel: that is what the source does. The arguments of a Go call are evaluated
  before the call, so \<open>acknowledgement.GetBytes()\<close> on a nil acknowledgement panics
  before the verifier is entered.
\<close>

definition AcknowledgePacket ::
  "'p Keeper \<Rightarrow> Context \<Rightarrow> PacketI \<Rightarrow> bytes option \<Rightarrow> 'p \<Rightarrow> uint64 \<Rightarrow> PacketI result \<times> Context"
  where
  "AcknowledgePacket k ctx packet acknowledgement proof proofHeight =
     (case GetChannel ctx (GetSourcePort packet) (GetSourceChannel packet) of
        None \<Rightarrow> (Err ErrChannelNotFound, ctx)
      | Some channel \<Rightarrow>
     if State channel \<noteq> OPEN then (Err ErrInvalidChannelState, ctx)
     else if GetSourcePort packet \<noteq> PortID (Counterparty channel)
       then (Err ErrInvalidPacket, ctx)
     else if GetSourceChannel packet \<noteq> ChannelID (Counterparty channel)
       then (Err ErrInvalidPacket, ctx)
     else
     (case ConnectionHops channel of
        [] \<Rightarrow> (Panic IndexOutOfRange, ctx)
      | hop # _ \<Rightarrow>
     (case GetConnection ctx hop of
        None \<Rightarrow> (Err ErrConnectionNotFound, ctx)
      | Some connectionEnd \<Rightarrow>
     if GetState connectionEnd \<noteq> CONN_OPEN then (Err ErrInvalidConnectionState, ctx)
     else if GetPacketCommitment ctx
               (GetSourcePort packet) (GetSourceChannel packet) (GetSequence packet)
             \<noteq> CommitPacket k (GetData packet)
       then (Err ErrInvalidPacket, ctx)
     else
     (case acknowledgement of
        None \<Rightarrow> (Panic NilDereference, ctx)
      | Some ackBytes \<Rightarrow>
     (case VerifyPacketAcknowledgement k ctx connectionEnd proofHeight proof
             (GetDestPort packet) (GetDestChannel packet) (GetSequence packet) ackBytes of
        Some err \<Rightarrow>
          (Err err,
           logCall ctx (CallVerifyPacketAcknowledgement
             (GetDestPort packet) (GetDestChannel packet) (GetSequence packet)))
      | None \<Rightarrow>
          (Ok packet,
           logCall ctx (CallVerifyPacketAcknowledgement
             (GetDestPort packet) (GetDestChannel packet) (GetSequence packet))))))))"

definition AcknowledgementExecuted :: "'p Keeper \<Rightarrow> Context \<Rightarrow> PacketI \<Rightarrow> Context" where
  "AcknowledgementExecuted k ctx packet =
     deletePacketCommitment ctx
       (GetSourcePort packet) (GetSourceChannel packet) (GetSequence packet)"

subsection \<open>CleanupPacket\<close>

text \<open>
  The \<open>switch\<close> over the ordering gives the verifier's answer, with the call logged in
  the context, or the panic of the \<open>default\<close> branch.
\<close>

definition CleanupPacket ::
  "'p Keeper \<Rightarrow> Context \<Rightarrow> PacketI \<Rightarrow> 'p \<Rightarrow> uint64 \<Rightarrow> uint64 \<Rightarrow> bytes \<Rightarrow>
     PacketI result \<times> Context" where
  "CleanupPacket k ctx packet proof proofHeight nextSequenceRecv acknowledgement =
     (case GetChannel ctx (GetSourcePort packet) (GetSourceChannel packet) of
        None \<Rightarrow> (Err ErrChannelNotFound, ctx)
      | Some channel \<Rightarrow>
     if State channel \<noteq> OPEN then (Err ErrInvalidChannelState, ctx)
     else if GetDestPort packet \<noteq> PortID (Counterparty channel) then (Err ErrInvalidPacket, ctx)
     else if GetDestChannel packet \<noteq> ChannelID (Counterparty channel)
       then (Err ErrInvalidPacket, ctx)
     else
     (case ConnectionHops channel of
        [] \<Rightarrow> (Panic IndexOutOfRange, ctx)
      | hop # _ \<Rightarrow>
     (case GetConnection ctx hop of
        None \<Rightarrow> (Err ErrConnectionNotFound, ctx)
      | Some connectionEnd \<Rightarrow>
     if nextSequenceRecv \<le> GetSequence packet then (Err ErrInvalidPacket, ctx)
     else if GetPacketCommitment ctx
               (GetSourcePort packet) (GetSourceChannel packet) (GetSequence packet)
             \<noteq> CommitPacket k (GetData packet)
       then (Err ErrInvalidPacket, ctx)
     else
     (case Ordering channel of
        ORDERED \<Rightarrow>
          (let ctx1 = logCall ctx (CallVerifyNextSequenceRecv
                        (GetDestPort packet) (GetDestChannel packet) nextSequenceRecv)
           in case VerifyNextSequenceRecv k ctx connectionEnd proofHeight proof
                     (GetDestPort packet) (GetDestChannel packet) nextSequenceRecv of
                Some err \<Rightarrow> (Err err, ctx1)
              | None \<Rightarrow>
                  (Ok packet,
                   deletePacketCommitment ctx1
                     (GetSourcePort packet) (GetSourceChannel packet) (GetSequence packet)))
      | UNORDERED \<Rightarrow>
          (let ctx1 = logCall ctx (CallVerifyPacketAcknowledgement
                        (GetDestPort packet) (GetDestChannel packet) (GetSequence packet))
           in case VerifyPacketAcknowledgement k ctx connectionEnd proofHeight proof
                     (GetDestPort packet) (GetDestChannel packet) (GetSequence packet)
                     acknowledgement of
                Some err \<Rightarrow> (Err err, ctx1)
              | None \<Rightarrow>
                  (Ok packet,
                   deletePacketCommitment ctx1
                     (GetSourcePort packet) (GetSourceChannel packet) (GetSequence packet)))
      | OtherOrder _ \<Rightarrow> (Panic (PanicError ErrInvalidChannelOrdering), ctx)))))"


subsection \<open>Sequences of calls\<close>

text \<open>
  The host runs one operation to completion before the next begins (spec, section 5). A
  call is one of the six entry points with its arguments; \<open>call\<close> gives the context a
  call leaves behind, whatever its result, \<open>calls\<close> runs a list of calls in order, and
  \<open>sends\<close> counts the calls of the list that are a successful SendPacket on a given
  channel.
\<close>

datatype 'p keeper_call =
    CallSendPacket PacketI
  | CallRecvPacket PacketI 'p uint64
  | CallPacketExecuted PacketI "bytes option"
  | CallAcknowledgePacket PacketI "bytes option" 'p uint64
  | CallAcknowledgementExecuted PacketI
  | CallCleanupPacket PacketI 'p uint64 uint64 bytes

fun call :: "'p Keeper \<Rightarrow> Context \<Rightarrow> 'p keeper_call \<Rightarrow> Context" where
  "call k ctx (CallSendPacket packet) = snd (SendPacket k ctx packet)"
| "call k ctx (CallRecvPacket packet proof proofHeight) =
     snd (RecvPacket k ctx packet proof proofHeight)"
| "call k ctx (CallPacketExecuted packet acknowledgement) =
     snd (PacketExecuted k ctx packet acknowledgement)"
| "call k ctx (CallAcknowledgePacket packet acknowledgement proof proofHeight) =
     snd (AcknowledgePacket k ctx packet acknowledgement proof proofHeight)"
| "call k ctx (CallAcknowledgementExecuted packet) = AcknowledgementExecuted k ctx packet"
| "call k ctx (CallCleanupPacket packet proof proofHeight nextSequenceRecv acknowledgement) =
     snd (CleanupPacket k ctx packet proof proofHeight nextSequenceRecv acknowledgement)"

fun calls :: "'p Keeper \<Rightarrow> Context \<Rightarrow> 'p keeper_call list \<Rightarrow> Context" where
  "calls k ctx [] = ctx"
| "calls k ctx (c # cs) = calls k (call k ctx c) cs"

fun sent :: "'p Keeper \<Rightarrow> Context \<Rightarrow> 'p keeper_call \<Rightarrow> string \<Rightarrow> string \<Rightarrow> bool" where
  "sent k ctx (CallSendPacket packet) portID channelID =
     (fst (SendPacket k ctx packet) = Ok () \<and>
      GetSourcePort packet = portID \<and> GetSourceChannel packet = channelID)"
| "sent k ctx (CallRecvPacket packet proof proofHeight) portID channelID = False"
| "sent k ctx (CallPacketExecuted packet acknowledgement) portID channelID = False"
| "sent k ctx (CallAcknowledgePacket packet acknowledgement proof proofHeight)
     portID channelID = False"
| "sent k ctx (CallAcknowledgementExecuted packet) portID channelID = False"
| "sent k ctx (CallCleanupPacket packet proof proofHeight nextSequenceRecv acknowledgement)
     portID channelID = False"

fun sends :: "'p Keeper \<Rightarrow> Context \<Rightarrow> 'p keeper_call list \<Rightarrow> string \<Rightarrow> string \<Rightarrow> nat" where
  "sends k ctx [] portID channelID = 0"
| "sends k ctx (c # cs) portID channelID =
     (if sent k ctx c portID channelID then 1 else 0)
       + sends k (call k ctx c) cs portID channelID"

subsection \<open>Example chains\<close>

text \<open>
  Modelled from the spec: the structural validation of a packet (4.3, SendPacket step 1:
  non-empty identifiers, sequence > 0, data non-empty; failure is InvalidPacket). The
  method \<open>ValidateBasic\<close> of the packet type is not part of the sources at hand.
\<close>

definition ValidateBasic_spec :: "PacketI \<Rightarrow> error option" where
  "ValidateBasic_spec packet =
     (if GetSourcePort packet = [] \<or> GetSourceChannel packet = [] \<or>
         GetDestPort packet = [] \<or> GetDestChannel packet = [] \<or>
         GetSequence packet = 0 \<or> GetData packet = []
      then Some ErrInvalidPacket else None)"

text \<open>
  A keeper for the examples: the validation of the spec, a toy commitment codec that
  prefixes a tag byte (so that a commitment is never empty), and a verifier that accepts
  every proof.
\<close>

definition exampleKeeper :: "unit Keeper" where
  "exampleKeeper =
     \<lparr>ValidateBasic = ValidateBasic_spec,
      CommitPacket = (\<lambda>bz. 1 # bz),
      CommitAcknowledgement = (\<lambda>ack. case ack of None \<Rightarrow> [0] | Some bz \<Rightarrow> 2 # bz),
      VerifyPacketCommitment = (\<lambda>ctx c h p port chan s bz. None),
      VerifyPacketAcknowledgement = (\<lambda>ctx c h p port chan s bz. None),
      VerifyNextSequenceRecv = (\<lambda>ctx c h p port chan s. None)\<rparr>"

definition examplePacket :: PacketI where
  "examplePacket =
     \<lparr>GetSequence = 5, GetTimeoutHeight = 100,
      GetSourcePort = ''transfer'', GetSourceChannel = ''channelA'',
      GetDestPort = ''transfer'', GetDestChannel = ''channelB'',
      GetData = [1, 2, 3]\<rparr>"

text \<open>
  The sending chain: channel A, open and ordered, towards channel B, over a connection
  whose client has seen height 40; the next sequence to send is 5.
\<close>

definition channelA :: Channel where
  "channelA =
     \<lparr>State = OPEN, Ordering = ORDERED,
      Counterparty = \<lparr>PortID = ''transfer'', ChannelID = ''channelB''\<rparr>,
      ConnectionHops = [''connectionA'']\<rparr>"

definition sendingChain :: Context where
  "sendingChain =
     \<lparr>BlockHeight = 50,
      channels = [(''transfer'', ''channelA'') \<mapsto> channelA],
      connections = [''connectionA'' \<mapsto> \<lparr>GetState = CONN_OPEN, GetClientID = ''clientA''\<rparr>],
      clientStates = [''clientA'' \<mapsto> \<lparr>GetLatestHeight = 40\<rparr>],
      nextSequenceSends = [(''transfer'', ''channelA'') \<mapsto> 5],
      nextSequenceRecvs = Map.empty,
      packetCommitments = Map.empty,
      packetAcknowledgements = Map.empty,
      verifierCalls = []\<rparr>"

text \<open>The receiving chain: channel B, open and ordered, towards channel A; the next
  sequence to receive is 5.\<close>

definition channelB :: Channel where
  "channelB =
     \<lparr>State = OPEN, Ordering = ORDERED,
      Counterparty = \<lparr>PortID = ''transfer'', ChannelID = ''channelA''\<rparr>,
      ConnectionHops = [''connectionB'']\<rparr>"

definition receivingChain :: Context where
  "receivingChain =
     \<lparr>BlockHeight = 60,
      channels = [(''transfer'', ''channelB'') \<mapsto> channelB],
      connections = [''connectionB'' \<mapsto> \<lparr>GetState = CONN_OPEN, GetClientID = ''clientB''\<rparr>],
      clientStates = [''clientB'' \<mapsto> \<lparr>GetLatestHeight = 45\<rparr>],
      nextSequenceSends = Map.empty,
      nextSequenceRecvs = [(''transfer'', ''channelB'') \<mapsto> 5],
      packetCommitments = Map.empty,
      packetAcknowledgements = Map.empty,
      verifierCalls = []\<rparr>"

text \<open>The sending chain after \<open>examplePacket\<close> was sent: the counter is 6 and the
  commitment of the packet is stored under sequence 5.\<close>

definition sentChain :: Context where
  "sentChain =
     sendingChain
       \<lparr>nextSequenceSends := [(''transfer'', ''channelA'') \<mapsto> 6],
        packetCommitments := [(''transfer'', ''channelA'', 5) \<mapsto> [1, 1, 2, 3]]\<rparr>"

text \<open>
  A chain whose channel has itself as its counterparty, over a connection that is still
  in INIT, with the commitment of \<open>loopbackPacket\<close> stored.
\<close>

definition loopbackPacket :: PacketI where
  "loopbackPacket =
     examplePacket\<lparr>GetDestPort := ''transfer'', GetDestChannel := ''channelA''\<rparr>"

definition loopbackChain :: Context where
  "loopbackChain =
     sentChain
       \<lparr>channels :=
          [(''transfer'', ''channelA'') \<mapsto>
             channelA\<lparr>Counterparty := \<lparr>PortID = ''transfer'', ChannelID = ''channelA''\<rparr>\<rparr>],
        connections :=
          [''connectionA'' \<mapsto> \<lparr>GetState = CONN_INIT, GetClientID = ''clientA''\<rparr>]\<rparr>"

text \<open>Variations of the examples: a keeper whose validation accepts every packet, packets
  with empty data, with a later sequence, with a destination channel that names no
  channel, and with a source channel that is not the counterparty of channel B.\<close>

definition lenientKeeper :: "unit Keeper" where
  "lenientKeeper = exampleKeeper\<lparr>ValidateBasic := (\<lambda>packet. None)\<rparr>"

definition emptyPacket :: PacketI where
  "emptyPacket = examplePacket\<lparr>GetData := []\<rparr>"

definition laterPacket :: PacketI where
  "laterPacket = examplePacket\<lparr>GetSequence := 7\<rparr>"

definition strayPacket :: PacketI where
  "strayPacket = examplePacket\<lparr>GetDestChannel := ''channelX''\<rparr>"

definition foreignPacket :: PacketI where
  "foreignPacket = examplePacket\<lparr>GetSourceChannel := ''channelZ''\<rparr>"

text \<open>Variations of the chains: channel A still in INIT, channel A closed after the packet
  was sent, channel B closed, channel B unordered.\<close>

definition initSendingChain :: Context where
  "initSendingChain =
     sendingChain\<lparr>channels := [(''transfer'', ''channelA'') \<mapsto> channelA\<lparr>State := INIT\<rparr>]\<rparr>"

definition closedSentChain :: Context where
  "closedSentChain =
     sentChain\<lparr>channels := [(''transfer'', ''channelA'') \<mapsto> channelA\<lparr>State := CLOSED\<rparr>]\<rparr>"

definition closedReceivingChain :: Context where
  "closedReceivingChain =
     receivingChain\<lparr>channels := [(''transfer'', ''channelB'') \<mapsto> channelB\<lparr>State := CLOSED\<rparr>]\<rparr>"

text \<open>The sending chain after the packet was sent, with its connection missing; and the
  loopback chain with its connection OPEN.\<close>

definition unconnectedChain :: Context where
  "unconnectedChain = sentChain\<lparr>connections := Map.empty\<rparr>"

definition openLoopbackChain :: Context where
  "openLoopbackChain =
     loopbackChain
       \<lparr>connections :=
          [''connectionA'' \<mapsto> \<lparr>GetState = CONN_OPEN, GetClientID = ''clientA''\<rparr>]\<rparr>"

text \<open>The loopback packet with other data, and the packet that follows the example
  packet on channel A.\<close>

definition alteredPacket :: PacketI where
  "alteredPacket = loopbackPacket\<lparr>GetData := [9]\<rparr>"

definition nextPacket :: PacketI where
  "nextPacket = examplePacket\<lparr>GetSequence := 6\<rparr>"

definition unorderedReceivingChain :: Context where
  "unorderedReceivingChain =
     receivingChain
       \<lparr>channels := [(''transfer'', ''channelB'') \<mapsto> channelB\<lparr>Ordering := UNORDERED\<rparr>]\<rparr>"

section \<open>Properties\<close>

lemmas store_defs =
  GetChannel_def GetConnection_def GetClientState_def
  GetNextSequenceSend_def SetNextSequenceSend_def
  GetNextSequenceRecv_def SetNextSequenceRecv_def
  GetPacketCommitment_def SetPacketCommitment_def deletePacketCommitment_def
  SetPacketAcknowledgement_def logCall_def

lemmas example_defs =
  exampleKeeper_def ValidateBasic_spec_def examplePacket_def
  channelA_def sendingChain_def channelB_def receivingChain_def
  sentChain_def loopbackPacket_def loopbackChain_def
  lenientKeeper_def emptyPacket_def laterPacket_def strayPacket_def foreignPacket_def
  initSendingChain_def closedSentChain_def closedReceivingChain_def
  unorderedReceivingChain_def unconnectedChain_def openLoopbackChain_def
  alteredPacket_def nextPacket_def

subsection \<open>Timeout precedence in SendPacket\<close>

text \<open>
  C6. When the structural validation, the channel, counterparty and connection checks of
  SendPacket pass and the client state exists, a client whose latest height has reached
  the packet's timeout height makes SendPacket fail with PacketTimeout, and the context
  it returns is the one it was given: no counter is incremented and no commitment is
  written.
\<close>

theorem SendPacket_timeout_precedence:
  assumes "ValidateBasic k packet = None"
    and "GetChannel ctx (GetSourcePort packet) (GetSourceChannel packet) = Some channel"
    and "State channel \<noteq> CLOSED"
    and "GetDestPort packet = PortID (Counterparty channel)"
    and "GetDestChannel packet = ChannelID (Counterparty channel)"
    and "ConnectionHops channel = hop # hops"
    and "GetConnection ctx hop = Some connectionEnd"
    and "GetState connectionEnd \<noteq> UNINITIALIZED"
    and "GetClientState ctx (GetClientID connectionEnd) = Some clientState"
    and "GetLatestHeight clientState \<ge> GetTimeoutHeight packet"
  shows "SendPacket k ctx packet = (Err ErrPacketTimeout, ctx)"
  using assms by (simp add: SendPacket_def)

theorem SendPacket_timeout_precedence_witness:
  "SendPacket exampleKeeper sendingChain (examplePacket\<lparr>GetTimeoutHeight := 40\<rparr>)
     = (Err ErrPacketTimeout, sendingChain)"
  by (rule SendPacket_timeout_precedence
        [where channel = channelA and hop = "''connectionA''" and hops = "[]"
           and connectionEnd = "\<lparr>GetState = CONN_OPEN, GetClientID = ''clientA''\<rparr>"
           and clientState = "\<lparr>GetLatestHeight = 40\<rparr>"])
     (simp_all add: example_defs store_defs)

subsection \<open>RecvPacket and AcknowledgePacket write nothing\<close>

lemma RecvPacket_frame:
  "snd (RecvPacket k ctx packet pf proofHeight)
     = ctx\<lparr>verifierCalls := verifierCalls (snd (RecvPacket k ctx packet pf proofHeight))\<rparr>"
  by (simp add: RecvPacket_def logCall_def split: option.split list.split)

lemma AcknowledgePacket_frame:
  "snd (AcknowledgePacket k ctx packet acknowledgement pf proofHeight)
     = ctx\<lparr>verifierCalls :=
             verifierCalls (snd (AcknowledgePacket k ctx packet acknowledgement pf proofHeight))\<rparr>"
  by (simp add: AcknowledgePacket_def logCall_def split: option.split list.split)

text \<open>
  C8. RecvPacket and AcknowledgePacket never mutate the store. Whatever the input and the
  context, and whether the call succeeds, returns an error or panics, the context that
  comes back differs from the one given at most in the log of verifier calls: the four
  keyspaces (both sequence counters, the packet commitments and the packet
  acknowledgements) are the same, and so are the registries. A call that succeeds returns
  the packet it was given.
\<close>

theorem RecvPacket_AcknowledgePacket_do_not_mutate:
  "keyspaces (snd (RecvPacket k ctx packet pf proofHeight)) = keyspaces ctx
   \<and> snd (RecvPacket k ctx packet pf proofHeight)
       = ctx\<lparr>verifierCalls := verifierCalls (snd (RecvPacket k ctx packet pf proofHeight))\<rparr>
   \<and> fst (RecvPacket k ctx packet pf proofHeight) \<in> {Ok packet} \<union> range Err \<union> range Panic
   \<and> keyspaces (snd (AcknowledgePacket k ctx packet acknowledgement pf proofHeight))
       = keyspaces ctx
   \<and> snd (AcknowledgePacket k ctx packet acknowledgement pf proofHeight)
       = ctx\<lparr>verifierCalls :=
               verifierCalls (snd (AcknowledgePacket k ctx packet acknowledgement pf proofHeight))\<rparr>
   \<and> fst (AcknowledgePacket k ctx packet acknowledgement pf proofHeight)
       \<in> {Ok packet} \<union> range Err \<union> range Panic"
proof -
  have r1: "keyspaces (snd (RecvPacket k ctx packet pf proofHeight)) = keyspaces ctx"
    by (simp add: RecvPacket_def keyspaces_def logCall_def split: option.split list.split)
  have r2: "fst (RecvPacket k ctx packet pf proofHeight)
              \<in> {Ok packet} \<union> range Err \<union> range Panic"
    by (simp add: RecvPacket_def split: option.split list.split)
  have a1: "keyspaces (snd (AcknowledgePacket k ctx packet acknowledgement pf proofHeight))
              = keyspaces ctx"
    by (simp add: AcknowledgePacket_def keyspaces_def logCall_def split: option.split list.split)
  have a2: "fst (AcknowledgePacket k ctx packet acknowledgement pf proofHeight)
              \<in> {Ok packet} \<union> range Err \<union> range Panic"
    by (simp add: AcknowledgePacket_def split: option.split list.split)
  from r1 r2 a1 a2 RecvPacket_frame [of k ctx packet pf proofHeight]
    AcknowledgePacket_frame [of k ctx packet acknowledgement pf proofHeight]
  show ?thesis by blast
qed

subsection \<open>The ordering branch of CleanupPacket\<close>

text \<open>
  C9. A call of CleanupPacket that reaches the switch over the channel's ordering (the
  channel is found and OPEN, the packet's destination is the channel's counterparty, the
  first connection hop exists, the claimed receive sequence is past the packet's
  sequence and the stored commitment matches) with an ordering that is neither ORDERED
  nor UNORDERED panics with ErrInvalidChannelOrdering: the result is a panic, not an
  error return, and nothing was written. When the ordering of the channel is ORDERED or
  UNORDERED, this panic cannot be the result.
\<close>

theorem CleanupPacket_unrecognized_ordering_is_fatal:
  "(GetChannel ctx (GetSourcePort packet) (GetSourceChannel packet) = Some channel \<longrightarrow>
    State channel = OPEN \<longrightarrow>
    GetDestPort packet = PortID (Counterparty channel) \<longrightarrow>
    GetDestChannel packet = ChannelID (Counterparty channel) \<longrightarrow>
    ConnectionHops channel = hop # hops \<longrightarrow>
    GetConnection ctx hop = Some connectionEnd \<longrightarrow>
    GetSequence packet < nextSequenceRecv \<longrightarrow>
    GetPacketCommitment ctx (GetSourcePort packet) (GetSourceChannel packet) (GetSequence packet)
      = CommitPacket k (GetData packet) \<longrightarrow>
    Ordering channel \<noteq> ORDERED \<longrightarrow> Ordering channel \<noteq> UNORDERED \<longrightarrow>
      CleanupPacket k ctx packet pf proofHeight nextSequenceRecv acknowledgement
        = (Panic (PanicError ErrInvalidChannelOrdering), ctx)
      \<and> (\<forall>e. fst (CleanupPacket k ctx packet pf proofHeight nextSequenceRecv acknowledgement)
                \<noteq> Err e))
   \<and> (GetChannel ctx (GetSourcePort packet) (GetSourceChannel packet) = Some channel \<longrightarrow>
      Ordering channel = ORDERED \<or> Ordering channel = UNORDERED \<longrightarrow>
      fst (CleanupPacket k ctx packet pf proofHeight nextSequenceRecv acknowledgement)
        \<noteq> Panic (PanicError ErrInvalidChannelOrdering))"
  by (cases "Ordering channel")
     (auto simp add: CleanupPacket_def Let_def split: option.split list.split)

theorem CleanupPacket_unrecognized_ordering_is_fatal_witness:
  "CleanupPacket exampleKeeper
       (sentChain\<lparr>channels :=
          [(''transfer'', ''channelA'') \<mapsto> channelA\<lparr>Ordering := OtherOrder 0\<rparr>]\<rparr>)
       examplePacket () 70 6 []
     = (Panic (PanicError ErrInvalidChannelOrdering),
        sentChain\<lparr>channels :=
          [(''transfer'', ''channelA'') \<mapsto> channelA\<lparr>Ordering := OtherOrder 0\<rparr>]\<rparr>)
   \<and> fst (CleanupPacket exampleKeeper sentChain examplePacket () 70 6 [])
       \<noteq> Panic (PanicError ErrInvalidChannelOrdering)"
proof -
  let ?ctx = "sentChain\<lparr>channels :=
          [(''transfer'', ''channelA'') \<mapsto> channelA\<lparr>Ordering := OtherOrder 0\<rparr>]\<rparr>"
  have "CleanupPacket exampleKeeper ?ctx examplePacket () 70 6 []
          = (Panic (PanicError ErrInvalidChannelOrdering), ?ctx)"
    using CleanupPacket_unrecognized_ordering_is_fatal
      [where ctx = ?ctx and packet = examplePacket
         and channel = "channelA\<lparr>Ordering := OtherOrder 0\<rparr>"
         and hop = "''connectionA''" and hops = "[]"
         and connectionEnd = "\<lparr>GetState = CONN_OPEN, GetClientID = ''clientA''\<rparr>"
         and nextSequenceRecv = 6 and k = exampleKeeper and pf = "()" and proofHeight = 70
         and acknowledgement = "[]"]
    by (simp add: example_defs store_defs)
  moreover have "fst (CleanupPacket exampleKeeper sentChain examplePacket () 70 6 [])
          \<noteq> Panic (PanicError ErrInvalidChannelOrdering)"
    using CleanupPacket_unrecognized_ordering_is_fatal
      [where ctx = sentChain and packet = examplePacket and channel = channelA
         and hop = "''connectionA''" and hops = "[]"
         and connectionEnd = "\<lparr>GetState = CONN_OPEN, GetClientID = ''clientA''\<rparr>"
         and nextSequenceRecv = 6 and k = exampleKeeper and pf = "()" and proofHeight = 70
         and acknowledgement = "[]"]
    by (simp add: example_defs store_defs)
  ultimately show ?thesis by simp
qed

text \<open>
  C10. CleanupPacket requires the first-hop connection to exist and asks nothing of its
  state. When the channel is OPEN and the packet's destination is the channel's
  counterparty, a first hop that names no connection makes CleanupPacket fail with
  ConnectionNotFound, the context unchanged; a call that succeeds has found the
  connection. When the connection exists (in whatever state), the claimed receive
  sequence is past the packet's sequence, the stored commitment matches and the verifier
  accepts, CleanupPacket succeeds and the commitment is gone. RecvPacket and
  AcknowledgePacket never succeed when the first-hop connection of the channel they look
  up is not OPEN, and reject it with InvalidConnectionState when their channel and
  counterparty checks pass.
\<close>

theorem CleanupPacket_ignores_connection_state:
  "(GetChannel ctx (GetSourcePort packet) (GetSourceChannel packet) = Some channel \<longrightarrow>
    State channel = OPEN \<longrightarrow>
    GetDestPort packet = PortID (Counterparty channel) \<longrightarrow>
    GetDestChannel packet = ChannelID (Counterparty channel) \<longrightarrow>
    ConnectionHops channel = hop # hops \<longrightarrow>
    GetConnection ctx hop = None \<longrightarrow>
      CleanupPacket k ctx packet pf proofHeight nextSequenceRecv acknowledgement
        = (Err ErrConnectionNotFound, ctx))
   \<and> (\<forall>p. fst (CleanupPacket k ctx packet pf proofHeight nextSequenceRecv acknowledgement)
            = Ok p \<longrightarrow>
          (\<exists>channel hop hops connectionEnd.
             GetChannel ctx (GetSourcePort packet) (GetSourceChannel packet) = Some channel
             \<and> ConnectionHops channel = hop # hops
             \<and> GetConnection ctx hop = Some connectionEnd))
   \<and> (GetChannel ctx (GetSourcePort packet) (GetSourceChannel packet) = Some channel \<longrightarrow>
    State channel = OPEN \<longrightarrow>
    GetDestPort packet = PortID (Counterparty channel) \<longrightarrow>
    GetDestChannel packet = ChannelID (Counterparty channel) \<longrightarrow>
    ConnectionHops channel = hop # hops \<longrightarrow>
    GetConnection ctx hop = Some connectionEnd \<longrightarrow>
    GetSequence packet < nextSequenceRecv \<longrightarrow>
    GetPacketCommitment ctx (GetSourcePort packet) (GetSourceChannel packet) (GetSequence packet)
      = CommitPacket k (GetData packet) \<longrightarrow>
    (Ordering channel = ORDERED \<and>
       VerifyNextSequenceRecv k ctx connectionEnd proofHeight pf
         (GetDestPort packet) (GetDestChannel packet) nextSequenceRecv = None
     \<or> Ordering channel = UNORDERED \<and>
       VerifyPacketAcknowledgement k ctx connectionEnd proofHeight pf
         (GetDestPort packet) (GetDestChannel packet) (GetSequence packet) acknowledgement
         = None) \<longrightarrow>
      fst (CleanupPacket k ctx packet pf proofHeight nextSequenceRecv acknowledgement)
        = Ok packet
      \<and> packetCommitments
           (snd (CleanupPacket k ctx packet pf proofHeight nextSequenceRecv acknowledgement))
           (GetSourcePort packet, GetSourceChannel packet, GetSequence packet) = None)
   \<and> (GetChannel ctx (GetDestPort packet) (GetDestChannel packet) = Some channel \<longrightarrow>
      ConnectionHops channel = hop # hops \<longrightarrow>
      GetConnection ctx hop = Some connectionEnd \<longrightarrow>
      GetState connectionEnd \<noteq> CONN_OPEN \<longrightarrow>
        (\<forall>p. fst (RecvPacket k ctx packet pf proofHeight) \<noteq> Ok p)
        \<and> (State channel = OPEN \<longrightarrow>
             GetSourcePort packet = PortID (Counterparty channel) \<longrightarrow>
             GetSourceChannel packet = ChannelID (Counterparty channel) \<longrightarrow>
               RecvPacket k ctx packet pf proofHeight = (Err ErrInvalidConnectionState, ctx)))
   \<and> (GetChannel ctx (GetSourcePort packet) (GetSourceChannel packet) = Some channel \<longrightarrow>
      ConnectionHops channel = hop # hops \<longrightarrow>
      GetConnection ctx hop = Some connectionEnd \<longrightarrow>
      GetState connectionEnd \<noteq> CONN_OPEN \<longrightarrow>
        (\<forall>p. fst (AcknowledgePacket k ctx packet ack pf proofHeight) \<noteq> Ok p)
        \<and> (State channel = OPEN \<longrightarrow>
             GetSourcePort packet = PortID (Counterparty channel) \<longrightarrow>
             GetSourceChannel packet = ChannelID (Counterparty channel) \<longrightarrow>
               AcknowledgePacket k ctx packet ack pf proofHeight
                 = (Err ErrInvalidConnectionState, ctx)))"
proof -
  let ?sp = "GetSourcePort packet" and ?sc = "GetSourceChannel packet"
    and ?dp = "GetDestPort packet" and ?dc = "GetDestChannel packet"
  have missing:
    "CleanupPacket k ctx packet pf proofHeight nextSequenceRecv acknowledgement
       = (Err ErrConnectionNotFound, ctx)"
    if "GetChannel ctx ?sp ?sc = Some channel" "State channel = OPEN"
      "?dp = PortID (Counterparty channel)" "?dc = ChannelID (Counterparty channel)"
      "ConnectionHops channel = hop # hops" "GetConnection ctx hop = None"
    using that by (auto simp add: CleanupPacket_def)
  have required:
    "\<exists>channel hop hops connectionEnd.
       GetChannel ctx ?sp ?sc = Some channel
       \<and> ConnectionHops channel = hop # hops
       \<and> GetConnection ctx hop = Some connectionEnd"
    if "fst (CleanupPacket k ctx packet pf proofHeight nextSequenceRecv acknowledgement) = Ok p"
    for p
    using that
    by (auto simp add: CleanupPacket_def Let_def
          split: option.splits list.splits if_splits order.splits)
  have cleanup:
    "fst (CleanupPacket k ctx packet pf proofHeight nextSequenceRecv acknowledgement)
       = Ok packet
     \<and> packetCommitments
          (snd (CleanupPacket k ctx packet pf proofHeight nextSequenceRecv acknowledgement))
          (?sp, ?sc, GetSequence packet) = None"
    if "GetChannel ctx ?sp ?sc = Some channel" "State channel = OPEN"
      "?dp = PortID (Counterparty channel)" "?dc = ChannelID (Counterparty channel)"
      "ConnectionHops channel = hop # hops" "GetConnection ctx hop = Some connectionEnd"
      "GetSequence packet < nextSequenceRecv"
      "GetPacketCommitment ctx ?sp ?sc (GetSequence packet) = CommitPacket k (GetData packet)"
      "Ordering channel = ORDERED \<and>
         VerifyNextSequenceRecv k ctx connectionEnd proofHeight pf ?dp ?dc nextSequenceRecv
           = None
       \<or> Ordering channel = UNORDERED \<and>
         VerifyPacketAcknowledgement k ctx connectionEnd proofHeight pf ?dp ?dc
           (GetSequence packet) acknowledgement = None"
  proof -
    from that have
      "CleanupPacket k ctx packet pf proofHeight nextSequenceRecv acknowledgement
         = (Ok packet,
            deletePacketCommitment
              (logCall ctx
                 (if Ordering channel = ORDERED
                  then CallVerifyNextSequenceRecv ?dp ?dc nextSequenceRecv
                  else CallVerifyPacketAcknowledgement ?dp ?dc (GetSequence packet)))
              ?sp ?sc (GetSequence packet))"
      by (auto simp add: CleanupPacket_def Let_def not_le)
    then show ?thesis
      by (simp add: deletePacketCommitment_def logCall_def)
  qed
  have recv_never: "fst (RecvPacket k ctx packet pf proofHeight) \<noteq> Ok p"
    if "GetChannel ctx ?dp ?dc = Some channel" "ConnectionHops channel = hop # hops"
      "GetConnection ctx hop = Some connectionEnd" "GetState connectionEnd \<noteq> CONN_OPEN"
    for p
    using that by (simp add: RecvPacket_def)
  have recv_error: "RecvPacket k ctx packet pf proofHeight = (Err ErrInvalidConnectionState, ctx)"
    if "GetChannel ctx ?dp ?dc = Some channel" "ConnectionHops channel = hop # hops"
      "GetConnection ctx hop = Some connectionEnd" "GetState connectionEnd \<noteq> CONN_OPEN"
      "State channel = OPEN" "?sp = PortID (Counterparty channel)"
      "?sc = ChannelID (Counterparty channel)"
    using that by (simp add: RecvPacket_def)
  have ack_never: "fst (AcknowledgePacket k ctx packet ack pf proofHeight) \<noteq> Ok p"
    if "GetChannel ctx ?sp ?sc = Some channel" "ConnectionHops channel = hop # hops"
      "GetConnection ctx hop = Some connectionEnd" "GetState connectionEnd \<noteq> CONN_OPEN"
    for p
    using that by (simp add: AcknowledgePacket_def)
  have ack_error:
    "AcknowledgePacket k ctx packet ack pf proofHeight = (Err ErrInvalidConnectionState, ctx)"
    if "GetChannel ctx ?sp ?sc = Some channel" "ConnectionHops channel = hop # hops"
      "GetConnection ctx hop = Some connectionEnd" "GetState connectionEnd \<noteq> CONN_OPEN"
      "State channel = OPEN" "?sp = PortID (Counterparty channel)"
      "?sc = ChannelID (Counterparty channel)"
    using that by (simp add: AcknowledgePacket_def)
  from missing required cleanup recv_never recv_error ack_never ack_error show ?thesis
    by blast
qed

theorem CleanupPacket_ignores_connection_state_witness:
  "CleanupPacket exampleKeeper unconnectedChain examplePacket () 70 6 []
     = (Err ErrConnectionNotFound, unconnectedChain)
   \<and> map_option GetState (GetConnection loopbackChain ''connectionA'') = Some CONN_INIT
   \<and> fst (CleanupPacket exampleKeeper loopbackChain loopbackPacket () 70 6 [])
       = Ok loopbackPacket
   \<and> packetCommitments
        (snd (CleanupPacket exampleKeeper loopbackChain loopbackPacket () 70 6 []))
        (GetSourcePort loopbackPacket, GetSourceChannel loopbackPacket,
         GetSequence loopbackPacket) = None
   \<and> packetCommitments loopbackChain (''transfer'', ''channelA'', 5) = Some [1, 1, 2, 3]
   \<and> RecvPacket exampleKeeper loopbackChain loopbackPacket () 70
       = (Err ErrInvalidConnectionState, loopbackChain)
   \<and> AcknowledgePacket exampleKeeper loopbackChain loopbackPacket (Some [7]) () 70
       = (Err ErrInvalidConnectionState, loopbackChain)"
proof -
  have unconnected:
    "GetChannel unconnectedChain (GetSourcePort examplePacket) (GetSourceChannel examplePacket)
       = Some channelA"
    "State channelA = OPEN"
    "GetDestPort examplePacket = PortID (Counterparty channelA)"
    "GetDestChannel examplePacket = ChannelID (Counterparty channelA)"
    "ConnectionHops channelA = ''connectionA'' # []"
    "GetConnection unconnectedChain ''connectionA'' = None"
    by (simp_all add: example_defs store_defs)
  let ?loop = "channelA\<lparr>Counterparty := \<lparr>PortID = ''transfer'', ChannelID = ''channelA''\<rparr>\<rparr>"
  let ?conn = "\<lparr>GetState = CONN_INIT, GetClientID = ''clientA''\<rparr>"
  have loopback:
    "GetChannel loopbackChain (GetSourcePort loopbackPacket) (GetSourceChannel loopbackPacket)
       = Some ?loop"
    "GetChannel loopbackChain (GetDestPort loopbackPacket) (GetDestChannel loopbackPacket)
       = Some ?loop"
    "State ?loop = OPEN"
    "GetDestPort loopbackPacket = PortID (Counterparty ?loop)"
    "GetDestChannel loopbackPacket = ChannelID (Counterparty ?loop)"
    "GetSourcePort loopbackPacket = PortID (Counterparty ?loop)"
    "GetSourceChannel loopbackPacket = ChannelID (Counterparty ?loop)"
    "ConnectionHops ?loop = ''connectionA'' # []"
    "GetConnection loopbackChain ''connectionA'' = Some ?conn"
    "GetState ?conn \<noteq> CONN_OPEN"
    "GetSequence loopbackPacket < 6"
    "GetPacketCommitment loopbackChain (GetSourcePort loopbackPacket)
       (GetSourceChannel loopbackPacket) (GetSequence loopbackPacket)
       = CommitPacket exampleKeeper (GetData loopbackPacket)"
    "Ordering ?loop = ORDERED"
    "VerifyNextSequenceRecv exampleKeeper loopbackChain ?conn 70 ()
       (GetDestPort loopbackPacket) (GetDestChannel loopbackPacket) 6 = None"
    by (simp_all add: example_defs store_defs)
  have stored:
    "map_option GetState (GetConnection loopbackChain ''connectionA'') = Some CONN_INIT"
    "packetCommitments loopbackChain (''transfer'', ''channelA'', 5) = Some [1, 1, 2, 3]"
    by (simp_all add: example_defs store_defs)
  from unconnected
    CleanupPacket_ignores_connection_state
      [where ctx = unconnectedChain and packet = examplePacket and channel = channelA
         and hop = "''connectionA''" and hops = "[]" and k = exampleKeeper and pf = "()"
         and proofHeight = 70 and nextSequenceRecv = 6 and acknowledgement = "[]"]
  have a: "CleanupPacket exampleKeeper unconnectedChain examplePacket () 70 6 []
     = (Err ErrConnectionNotFound, unconnectedChain)"
    by blast
  from loopback
    CleanupPacket_ignores_connection_state
      [where ctx = loopbackChain and packet = loopbackPacket and channel = ?loop
         and hop = "''connectionA''" and hops = "[]" and connectionEnd = ?conn
         and k = exampleKeeper and pf = "()" and proofHeight = 70
         and nextSequenceRecv = 6 and acknowledgement = "[]" and ack = "Some [7]"]
  have b: "fst (CleanupPacket exampleKeeper loopbackChain loopbackPacket () 70 6 [])
       = Ok loopbackPacket
     \<and> packetCommitments
          (snd (CleanupPacket exampleKeeper loopbackChain loopbackPacket () 70 6 []))
          (GetSourcePort loopbackPacket, GetSourceChannel loopbackPacket,
           GetSequence loopbackPacket) = None
     \<and> RecvPacket exampleKeeper loopbackChain loopbackPacket () 70
         = (Err ErrInvalidConnectionState, loopbackChain)
     \<and> AcknowledgePacket exampleKeeper loopbackChain loopbackPacket (Some [7]) () 70
         = (Err ErrInvalidConnectionState, loopbackChain)"
    by blast
  from a b stored show ?thesis by blast
qed

subsection \<open>The send sequence\<close>

lemma uint64_succ: "n \<noteq> - 1 \<Longrightarrow> unat (n + 1) = unat n + 1" for n :: uint64
proof -
  assume "n \<noteq> - 1"
  then have "1 + n \<noteq> 0"
    by (metis add_eq_0_iff)
  then show ?thesis
    by (simp add: unatSuc add.commute)
qed

text \<open>
  SendPacket succeeds only on the sequence the counter holds. A call moves the send
  counter of a channel by one when it is a successful SendPacket on that channel, and
  leaves it alone otherwise; so after a list of calls the counter has advanced by the
  number of successful sends on the channel.
\<close>

lemma SendPacket_success_counter:
  "fst (SendPacket k ctx packet) = Ok () \<Longrightarrow>
   GetNextSequenceSend ctx (GetSourcePort packet) (GetSourceChannel packet)
     = Some (GetSequence packet)"
  by (auto simp add: SendPacket_def split: option.splits list.splits if_splits)

lemma SendPacket_cases:
  assumes "SendPacket k ctx packet = (r, ctx')"
  shows "r = Ok ()
         \<and> GetNextSequenceSend ctx (GetSourcePort packet) (GetSourceChannel packet)
             = Some (GetSequence packet)
         \<and> ctx' = SetPacketCommitment
                    (SetNextSequenceSend ctx (GetSourcePort packet) (GetSourceChannel packet)
                       (GetSequence packet + 1))
                    (GetSourcePort packet) (GetSourceChannel packet) (GetSequence packet)
                    (CommitPacket k (GetData packet))
         \<or> r \<noteq> Ok () \<and> ctx' = ctx"
  using assms
  by (auto simp add: SendPacket_def split: option.splits list.splits if_splits)

lemma SendPacket_counter:
  "GetNextSequenceSend (snd (SendPacket k ctx packet)) portID channelID =
     (if fst (SendPacket k ctx packet) = Ok () \<and>
         GetSourcePort packet = portID \<and> GetSourceChannel packet = channelID
      then map_option (\<lambda>n. n + 1) (GetNextSequenceSend ctx portID channelID)
      else GetNextSequenceSend ctx portID channelID)"
proof (cases "SendPacket k ctx packet")
  case (Pair r ctx')
  from SendPacket_cases [OF Pair] show ?thesis
  proof
    assume "r = Ok ()
         \<and> GetNextSequenceSend ctx (GetSourcePort packet) (GetSourceChannel packet)
             = Some (GetSequence packet)
         \<and> ctx' = SetPacketCommitment
                    (SetNextSequenceSend ctx (GetSourcePort packet) (GetSourceChannel packet)
                       (GetSequence packet + 1))
                    (GetSourcePort packet) (GetSourceChannel packet) (GetSequence packet)
                    (CommitPacket k (GetData packet))"
    then show ?thesis
      by (auto simp add: Pair store_defs)
  next
    assume "r \<noteq> Ok () \<and> ctx' = ctx"
    then show ?thesis
      by (simp add: Pair)
  qed
qed

lemma other_calls_counter:
  "nextSequenceSends (snd (RecvPacket k ctx packet pf proofHeight)) = nextSequenceSends ctx"
  "nextSequenceSends (snd (PacketExecuted k ctx packet ack)) = nextSequenceSends ctx"
  "nextSequenceSends (snd (AcknowledgePacket k ctx packet ack pf proofHeight))
     = nextSequenceSends ctx"
  "nextSequenceSends (AcknowledgementExecuted k ctx packet) = nextSequenceSends ctx"
  "nextSequenceSends
     (snd (CleanupPacket k ctx packet pf proofHeight nextSequenceRecv acknowledgement))
     = nextSequenceSends ctx"
  by (auto simp add: RecvPacket_def PacketExecuted_def AcknowledgePacket_def
        AcknowledgementExecuted_def CleanupPacket_def Let_def store_defs
        split: option.splits list.splits if_splits order.splits)

lemma call_counter:
  "GetNextSequenceSend (call k ctx c) portID channelID =
     (if sent k ctx c portID channelID
      then map_option (\<lambda>n. n + 1) (GetNextSequenceSend ctx portID channelID)
      else GetNextSequenceSend ctx portID channelID)"
proof (cases c)
  case (CallSendPacket packet)
  then show ?thesis by (simp add: SendPacket_counter)
qed (simp_all add: GetNextSequenceSend_def other_calls_counter)

lemma calls_counter:
  "GetNextSequenceSend ctx portID channelID = Some n \<Longrightarrow>
   GetNextSequenceSend (calls k ctx cs) portID channelID
     = Some (n + of_nat (sends k ctx cs portID channelID))"
proof (induction cs arbitrary: ctx n)
  case Nil
  then show ?case by simp
next
  case (Cons c cs)
  show ?case
  proof (cases "sent k ctx c portID channelID")
    case True
    with Cons.prems have "GetNextSequenceSend (call k ctx c) portID channelID = Some (n + 1)"
      by (simp add: call_counter)
    from Cons.IH [OF this] True show ?thesis
      by (simp add: add.assoc)
  next
    case False
    with Cons.prems have "GetNextSequenceSend (call k ctx c) portID channelID = Some n"
      by (simp add: call_counter)
    from Cons.IH [OF this] False show ?thesis
      by simp
  qed
qed

lemma sequence_not_sent_again:
  fixes n :: uint64
  assumes "GetNextSequenceSend ctx portID channelID = Some (n + 1)"
    and "sends k ctx cs portID channelID < 2 ^ 64 - 1"
    and "GetSourcePort packet = portID" and "GetSourceChannel packet = channelID"
    and "GetSequence packet = n"
  shows "fst (SendPacket k (calls k ctx cs) packet) \<noteq> Ok ()"
proof
  let ?m = "sends k ctx cs portID channelID"
  assume "fst (SendPacket k (calls k ctx cs) packet) = Ok ()"
  then have "GetNextSequenceSend (calls k ctx cs) portID channelID = Some n"
    using SendPacket_success_counter [of k "calls k ctx cs" packet] assms(3-5) by simp
  with calls_counter [OF assms(1), of k cs] have "n + 1 + of_nat ?m = n"
    by simp
  then have "(of_nat (Suc ?m) :: uint64) = 0"
    by (simp add: add.assoc)
  moreover have "(of_nat (Suc ?m) :: uint64) \<noteq> 0"
    using assms(2) by (intro of_nat_neq_0) simp_all
  ultimately show False by simp
qed

text \<open>
  With a validation that rejects sequence 0, the bound is not needed. A successful send
  happens at a counter that is not 0, so once the counter has passed a sequence it is
  either larger than it or has come round to 0, and at 0 it stays: no packet is sent
  there.
\<close>

lemma SendPacket_success_valid:
  "fst (SendPacket k ctx packet) = Ok () \<Longrightarrow> ValidateBasic k packet = None"
  by (auto simp add: SendPacket_def split: option.splits)

lemma sent_at_counter:
  assumes "sent k ctx c portID channelID"
  shows "\<exists>packet. ValidateBasic k packet = None
           \<and> GetNextSequenceSend ctx portID channelID = Some (GetSequence packet)"
proof (cases c)
  case (CallSendPacket packet)
  with assms SendPacket_success_valid [of k ctx packet]
    SendPacket_success_counter [of k ctx packet]
  show ?thesis by auto
qed (use assms in simp_all)

lemma counter_moves_on:
  fixes s :: uint64
  assumes valid: "\<forall>p. GetSequence p = 0 \<longrightarrow> ValidateBasic k p \<noteq> None"
  shows "GetNextSequenceSend ctx portID channelID = Some c \<Longrightarrow> c = 0 \<or> unat s < unat c \<Longrightarrow>
         \<exists>c'. GetNextSequenceSend (calls k ctx cs) portID channelID = Some c'
               \<and> (c' = 0 \<or> unat s < unat c')"
proof (induction cs arbitrary: ctx c)
  case Nil
  then show ?case by simp
next
  case (Cons x cs)
  show ?case
  proof (cases "sent k ctx x portID channelID")
    case True
    from sent_at_counter [OF True] Cons.prems(1) valid have "c \<noteq> 0"
      by auto
    with Cons.prems(2) have above: "unat s < unat c"
      by simp
    have "c + 1 = 0 \<or> unat s < unat (c + 1)"
    proof (cases "c = - 1")
      case True
      then show ?thesis by simp
    next
      case False
      with above show ?thesis by (simp add: uint64_succ)
    qed
    moreover from True Cons.prems(1)
    have "GetNextSequenceSend (call k ctx x) portID channelID = Some (c + 1)"
      by (simp add: call_counter)
    ultimately show ?thesis
      using Cons.IH [of "call k ctx x" "c + 1"] by simp
  next
    case False
    with Cons.prems(1) have "GetNextSequenceSend (call k ctx x) portID channelID = Some c"
      by (simp add: call_counter)
    with Cons.prems(2) show ?thesis
      using Cons.IH [of "call k ctx x" c] by simp
  qed
qed

lemma sequence_sent_at_most_once:
  fixes s :: uint64
  assumes valid: "\<forall>p. GetSequence p = 0 \<longrightarrow> ValidateBasic k p \<noteq> None"
    and "GetNextSequenceSend ctx portID channelID = Some (s + 1)"
    and "s \<noteq> 0"
    and "GetSourcePort packet = portID" and "GetSourceChannel packet = channelID"
    and "GetSequence packet = s"
  shows "fst (SendPacket k (calls k ctx cs) packet) \<noteq> Ok ()"
proof
  assume "fst (SendPacket k (calls k ctx cs) packet) = Ok ()"
  then have here: "GetNextSequenceSend (calls k ctx cs) portID channelID = Some s"
    using SendPacket_success_counter [of k "calls k ctx cs" packet] assms(4-6) by simp
  have "s + 1 = 0 \<or> unat s < unat (s + 1)"
  proof (cases "s = - 1")
    case True
    then show ?thesis by simp
  next
    case False
    then show ?thesis by (simp add: uint64_succ)
  qed
  from counter_moves_on [OF valid assms(2) this, of cs] here
  have "s = 0 \<or> unat s < unat s"
    by simp
  with assms(3) show False by simp
qed

text \<open>
  C1, as stated, fails. The claim about the send sequence lists the channel,
  counterparty, connection, client and timeout checks, but SendPacket validates the packet
  first: a packet with empty data whose sequence is the stored counter passes every listed
  check (the lenient keeper sends it) and is still rejected.
\<close>

theorem SendPacket_sequence_counterexample:
  "GetNextSequenceSend sendingChain ''transfer'' ''channelA'' = Some (GetSequence emptyPacket)
   \<and> fst (SendPacket lenientKeeper sendingChain emptyPacket) = Ok ()
   \<and> SendPacket exampleKeeper sendingChain emptyPacket = (Err ErrInvalidPacket, sendingChain)"
  by (simp add: SendPacket_def example_defs store_defs)

text \<open>
  C1, amended. When the structural validation and the channel, counterparty, connection,
  client and timeout checks of SendPacket pass, SendPacket succeeds if and only if the
  packet's sequence is the stored next sequence to send; an absent counter gives
  SequenceSendNotFound and any other sequence InvalidPacket, both with the context
  unchanged. On success the counter is its old value plus 1 (a uint64 addition, so one
  more as a number unless the old value was the largest uint64) and the commitment of
  the packet's data is stored under the packet's source port, source channel and
  sequence, and nothing else changes. So a packet with a given sequence is sent at most
  once: with a validation that rejects sequence 0 (as the structural validation does),
  once the packet was sent no packet with its sequence is sent on that channel again,
  whatever calls of the keeper come after and however many; sending the same packet again
  right away fails with InvalidPacket.
\<close>

theorem SendPacket_sequence:
  fixes k :: "'p Keeper"
  assumes "ValidateBasic k packet = None"
    and "GetChannel ctx (GetSourcePort packet) (GetSourceChannel packet) = Some channel"
    and "State channel \<noteq> CLOSED"
    and "GetDestPort packet = PortID (Counterparty channel)"
    and "GetDestChannel packet = ChannelID (Counterparty channel)"
    and "ConnectionHops channel = hop # hops"
    and "GetConnection ctx hop = Some connectionEnd"
    and "GetState connectionEnd \<noteq> UNINITIALIZED"
    and "GetClientState ctx (GetClientID connectionEnd) = Some clientState"
    and "GetLatestHeight clientState < GetTimeoutHeight packet"
  shows
    "(fst (SendPacket k ctx packet) = Ok () \<longleftrightarrow>
        GetNextSequenceSend ctx (GetSourcePort packet) (GetSourceChannel packet)
          = Some (GetSequence packet))
     \<and> (GetNextSequenceSend ctx (GetSourcePort packet) (GetSourceChannel packet) = None \<longrightarrow>
          SendPacket k ctx packet = (Err ErrSequenceSendNotFound, ctx))
     \<and> (\<forall>n. GetNextSequenceSend ctx (GetSourcePort packet) (GetSourceChannel packet) = Some n
            \<longrightarrow> n \<noteq> GetSequence packet \<longrightarrow>
          SendPacket k ctx packet = (Err ErrInvalidPacket, ctx))
     \<and> (\<forall>n. GetNextSequenceSend ctx (GetSourcePort packet) (GetSourceChannel packet) = Some n
            \<longrightarrow> n = GetSequence packet \<longrightarrow>
          snd (SendPacket k ctx packet)
            = ctx\<lparr>nextSequenceSends :=
                    (nextSequenceSends ctx)
                      ((GetSourcePort packet, GetSourceChannel packet) \<mapsto> n + 1),
                  packetCommitments :=
                    (packetCommitments ctx)
                      ((GetSourcePort packet, GetSourceChannel packet, GetSequence packet)
                         \<mapsto> CommitPacket k (GetData packet))\<rparr>
          \<and> GetNextSequenceSend (snd (SendPacket k ctx packet))
                (GetSourcePort packet) (GetSourceChannel packet) = Some (n + 1)
          \<and> (n \<noteq> - 1 \<longrightarrow> unat (n + 1) = unat n + 1)
          \<and> packetCommitments (snd (SendPacket k ctx packet))
                (GetSourcePort packet, GetSourceChannel packet, GetSequence packet)
              = Some (CommitPacket k (GetData packet))
          \<and> ((\<forall>p. GetSequence p = 0 \<longrightarrow> ValidateBasic k p \<noteq> None) \<longrightarrow>
              (\<forall>cs packet'.
                 GetSourcePort packet' = GetSourcePort packet \<longrightarrow>
                 GetSourceChannel packet' = GetSourceChannel packet \<longrightarrow>
                 GetSequence packet' = GetSequence packet \<longrightarrow>
                   fst (SendPacket k (calls k (snd (SendPacket k ctx packet)) cs) packet')
                     \<noteq> Ok ()))
          \<and> SendPacket k (snd (SendPacket k ctx packet)) packet
              = (Err ErrInvalidPacket, snd (SendPacket k ctx packet)))"
proof -
  let ?sp = "GetSourcePort packet" and ?sc = "GetSourceChannel packet"
  have not_ge: "\<not> GetTimeoutHeight packet \<le> GetLatestHeight clientState"
    using assms(10) by simp
  have run: "SendPacket k ctx packet =
      (case GetNextSequenceSend ctx ?sp ?sc of
         None \<Rightarrow> (Err ErrSequenceSendNotFound, ctx)
       | Some n \<Rightarrow>
           if GetSequence packet \<noteq> n then (Err ErrInvalidPacket, ctx)
           else (Ok (),
                 SetPacketCommitment (SetNextSequenceSend ctx ?sp ?sc (n + 1))
                   ?sp ?sc (GetSequence packet) (CommitPacket k (GetData packet))))"
    using assms(1-9) not_ge by (simp add: SendPacket_def)
  have iff: "fst (SendPacket k ctx packet) = Ok () \<longleftrightarrow>
      GetNextSequenceSend ctx ?sp ?sc = Some (GetSequence packet)"
    by (auto simp add: run split: option.split)
  have absent: "GetNextSequenceSend ctx ?sp ?sc = None \<longrightarrow>
      SendPacket k ctx packet = (Err ErrSequenceSendNotFound, ctx)"
    by (simp add: run)
  have other: "\<forall>n. GetNextSequenceSend ctx ?sp ?sc = Some n \<longrightarrow> n \<noteq> GetSequence packet \<longrightarrow>
      SendPacket k ctx packet = (Err ErrInvalidPacket, ctx)"
    by (auto simp add: run)
  have success: "snd (SendPacket k ctx packet)
            = ctx\<lparr>nextSequenceSends := (nextSequenceSends ctx)((?sp, ?sc) \<mapsto> n + 1),
                  packetCommitments :=
                    (packetCommitments ctx)
                      ((?sp, ?sc, GetSequence packet) \<mapsto> CommitPacket k (GetData packet))\<rparr>
          \<and> GetNextSequenceSend (snd (SendPacket k ctx packet)) ?sp ?sc = Some (n + 1)
          \<and> (n \<noteq> - 1 \<longrightarrow> unat (n + 1) = unat n + 1)
          \<and> packetCommitments (snd (SendPacket k ctx packet))
                (?sp, ?sc, GetSequence packet)
              = Some (CommitPacket k (GetData packet))
          \<and> ((\<forall>p. GetSequence p = 0 \<longrightarrow> ValidateBasic k p \<noteq> None) \<longrightarrow>
              (\<forall>cs packet'.
                 GetSourcePort packet' = ?sp \<longrightarrow>
                 GetSourceChannel packet' = ?sc \<longrightarrow>
                 GetSequence packet' = GetSequence packet \<longrightarrow>
                   fst (SendPacket k (calls k (snd (SendPacket k ctx packet)) cs) packet')
                     \<noteq> Ok ()))
          \<and> SendPacket k (snd (SendPacket k ctx packet)) packet
              = (Err ErrInvalidPacket, snd (SendPacket k ctx packet))"
    if n: "GetNextSequenceSend ctx ?sp ?sc = Some n" "n = GetSequence packet" for n
  proof -
    let ?ctx' = "SetPacketCommitment (SetNextSequenceSend ctx ?sp ?sc (n + 1))
                   ?sp ?sc (GetSequence packet) (CommitPacket k (GetData packet))"
    have snd_eq: "snd (SendPacket k ctx packet) = ?ctx'"
      using n by (simp add: run)
    have counter: "GetNextSequenceSend ?ctx' ?sp ?sc = Some (n + 1)"
      by (simp add: store_defs)
    have differs: "n + 1 \<noteq> n"
      by simp
    have step: "unat (n + 1) = unat n + 1" if "n \<noteq> - 1"
      using that by (rule uint64_succ)
    have resend: "fst (SendPacket k (calls k ?ctx' cs) packet') \<noteq> Ok ()"
      if valid: "\<forall>p. GetSequence p = 0 \<longrightarrow> ValidateBasic k p \<noteq> None"
        and same: "GetSourcePort packet' = ?sp" "GetSourceChannel packet' = ?sc"
          "GetSequence packet' = GetSequence packet"
      for cs packet'
    proof -
      from valid assms(1) n(2) have "n \<noteq> 0"
        by auto
      with valid counter show ?thesis
        using same(1,2) same(3) [folded n(2)] by (rule sequence_sent_at_most_once)
    qed
    have same_registries:
      "GetChannel ?ctx' ?sp ?sc = Some channel"
      "GetConnection ?ctx' hop = Some connectionEnd"
      "GetClientState ?ctx' (GetClientID connectionEnd) = Some clientState"
      using assms(2,7,9) by (simp_all add: store_defs)
    have again: "SendPacket k ?ctx' packet = (Err ErrInvalidPacket, ?ctx')"
      using assms(1,3,4,5,6,8) not_ge same_registries counter differs n(2)
      by (simp add: SendPacket_def)
    show ?thesis
      unfolding snd_eq using counter step resend again
      by (simp add: store_defs)
  qed
  from iff absent other success show ?thesis by blast
qed

theorem SendPacket_sequence_witness:
  "fst (SendPacket exampleKeeper sendingChain examplePacket) = Ok ()
   \<and> GetNextSequenceSend sendingChain ''transfer'' ''channelA'' = Some 5
   \<and> GetNextSequenceSend (snd (SendPacket exampleKeeper sendingChain examplePacket))
        ''transfer'' ''channelA'' = Some 6
   \<and> SendPacket exampleKeeper (snd (SendPacket exampleKeeper sendingChain examplePacket))
        examplePacket
       = (Err ErrInvalidPacket, snd (SendPacket exampleKeeper sendingChain examplePacket))
   \<and> fst (SendPacket exampleKeeper
             (snd (SendPacket exampleKeeper sendingChain examplePacket)) nextPacket) = Ok ()
   \<and> fst (SendPacket exampleKeeper
             (calls exampleKeeper (snd (SendPacket exampleKeeper sendingChain examplePacket))
                [CallSendPacket nextPacket, CallAcknowledgementExecuted examplePacket])
             examplePacket) \<noteq> Ok ()"
proof -
  have checks:
    "ValidateBasic exampleKeeper examplePacket = None"
    "GetChannel sendingChain (GetSourcePort examplePacket) (GetSourceChannel examplePacket)
       = Some channelA"
    "State channelA \<noteq> CLOSED"
    "GetDestPort examplePacket = PortID (Counterparty channelA)"
    "GetDestChannel examplePacket = ChannelID (Counterparty channelA)"
    "ConnectionHops channelA = ''connectionA'' # []"
    "GetConnection sendingChain ''connectionA''
       = Some \<lparr>GetState = CONN_OPEN, GetClientID = ''clientA''\<rparr>"
    "GetState \<lparr>GetState = CONN_OPEN, GetClientID = ''clientA''\<rparr> \<noteq> UNINITIALIZED"
    "GetClientState sendingChain (GetClientID \<lparr>GetState = CONN_OPEN, GetClientID = ''clientA''\<rparr>)
       = Some \<lparr>GetLatestHeight = 40\<rparr>"
    "GetLatestHeight \<lparr>GetLatestHeight = 40\<rparr> < GetTimeoutHeight examplePacket"
    by (simp_all add: example_defs store_defs)
  have counter:
    "GetNextSequenceSend sendingChain (GetSourcePort examplePacket)
       (GetSourceChannel examplePacket) = Some (GetSequence examplePacket)"
    by (simp add: example_defs store_defs)
  have valid: "\<forall>p. GetSequence p = 0 \<longrightarrow> ValidateBasic exampleKeeper p \<noteq> None"
    by (simp add: example_defs)
  from SendPacket_sequence [OF checks] counter
  have "fst (SendPacket exampleKeeper sendingChain examplePacket) = Ok ()
     \<and> GetNextSequenceSend (snd (SendPacket exampleKeeper sendingChain examplePacket))
          (GetSourcePort examplePacket) (GetSourceChannel examplePacket)
         = Some (GetSequence examplePacket + 1)
     \<and> SendPacket exampleKeeper (snd (SendPacket exampleKeeper sendingChain examplePacket))
          examplePacket
         = (Err ErrInvalidPacket, snd (SendPacket exampleKeeper sendingChain examplePacket))"
    by blast
  moreover from SendPacket_sequence [OF checks] counter valid
  have "fst (SendPacket exampleKeeper
             (calls exampleKeeper (snd (SendPacket exampleKeeper sendingChain examplePacket))
                [CallSendPacket nextPacket, CallAcknowledgementExecuted examplePacket])
             examplePacket) \<noteq> Ok ()"
    by blast
  moreover have "SendPacket exampleKeeper sendingChain examplePacket = (Ok (), sentChain)"
    by (simp add: SendPacket_def example_defs store_defs)
  then have "fst (SendPacket exampleKeeper
             (snd (SendPacket exampleKeeper sendingChain examplePacket)) nextPacket) = Ok ()"
    by (simp add: SendPacket_def example_defs store_defs)
  moreover have "GetSourcePort examplePacket = ''transfer''"
    "GetSourceChannel examplePacket = ''channelA''" "GetSequence examplePacket + 1 = 6"
    "GetNextSequenceSend sendingChain ''transfer'' ''channelA'' = Some 5"
    by (simp_all add: example_defs store_defs)
  ultimately show ?thesis by metis
qed

subsection \<open>In-order delivery on ordered channels\<close>

text \<open>
  C3, as stated, fails. The claim about ordered delivery speaks of every ORDERED channel,
  but PacketExecuted checks the channel's state first: on channel B closed, ORDERED, with
  the counter at 5, the packet with sequence 7 is rejected with InvalidChannelState, not
  InvalidPacket.
\<close>

theorem PacketExecuted_ordered_counterexample:
  "map_option Ordering (GetChannel closedReceivingChain ''transfer'' ''channelB'') = Some ORDERED
   \<and> GetNextSequenceRecv closedReceivingChain ''transfer'' ''channelB'' = Some 5
   \<and> GetDestPort laterPacket = ''transfer'' \<and> GetDestChannel laterPacket = ''channelB''
   \<and> GetSequence laterPacket = 7
   \<and> PacketExecuted exampleKeeper closedReceivingChain laterPacket (Some [9])
       = (Err ErrInvalidChannelState, closedReceivingChain)"
  by (simp add: PacketExecuted_def example_defs store_defs)

text \<open>
  C3, amended. On an ORDERED channel PacketExecuted succeeds only when the channel is OPEN
  and the packet's sequence is the stored next sequence to receive. On an OPEN ORDERED
  channel an absent counter gives SequenceReceiveNotFound, any other sequence
  InvalidPacket, and the expected sequence succeeds and leaves the counter at its old
  value plus 1 (a uint64 addition). On an UNORDERED channel no order is imposed: an OPEN
  channel accepts every sequence, the counters are not written, and they are not read:
  with any other table of receive counters the result is the same and the context differs
  in that table only.
\<close>

theorem PacketExecuted_ordered_delivery:
  "(GetChannel ctx (GetDestPort packet) (GetDestChannel packet) = Some channel \<longrightarrow>
    Ordering channel = ORDERED \<longrightarrow>
      (fst (PacketExecuted k ctx packet ack) = Ok () \<longrightarrow>
         State channel = OPEN
         \<and> GetNextSequenceRecv ctx (GetDestPort packet) (GetDestChannel packet)
             = Some (GetSequence packet))
      \<and> (State channel = OPEN \<longrightarrow>
           (GetNextSequenceRecv ctx (GetDestPort packet) (GetDestChannel packet) = None \<longrightarrow>
              fst (PacketExecuted k ctx packet ack) = Err ErrSequenceReceiveNotFound)
           \<and> (\<forall>n. GetNextSequenceRecv ctx (GetDestPort packet) (GetDestChannel packet) = Some n
                  \<longrightarrow> n \<noteq> GetSequence packet \<longrightarrow>
                fst (PacketExecuted k ctx packet ack) = Err ErrInvalidPacket)
           \<and> (GetNextSequenceRecv ctx (GetDestPort packet) (GetDestChannel packet)
                 = Some (GetSequence packet) \<longrightarrow>
                fst (PacketExecuted k ctx packet ack) = Ok ()
                \<and> GetNextSequenceRecv (snd (PacketExecuted k ctx packet ack))
                      (GetDestPort packet) (GetDestChannel packet)
                    = Some (GetSequence packet + 1)
                \<and> (GetSequence packet \<noteq> - 1 \<longrightarrow>
                      unat (GetSequence packet + 1) = unat (GetSequence packet) + 1))))
   \<and> (GetChannel ctx (GetDestPort packet) (GetDestChannel packet) = Some channel \<longrightarrow>
      Ordering channel = UNORDERED \<longrightarrow>
        (State channel = OPEN \<longrightarrow> fst (PacketExecuted k ctx packet ack) = Ok ())
        \<and> nextSequenceRecvs (snd (PacketExecuted k ctx packet ack)) = nextSequenceRecvs ctx
        \<and> (\<forall>m. PacketExecuted k (ctx\<lparr>nextSequenceRecvs := m\<rparr>) packet ack
                 = (fst (PacketExecuted k ctx packet ack),
                    (snd (PacketExecuted k ctx packet ack))\<lparr>nextSequenceRecvs := m\<rparr>)))"
proof -
  let ?dp = "GetDestPort packet" and ?dc = "GetDestChannel packet"
  have only_when: "State channel = OPEN \<and> GetNextSequenceRecv ctx ?dp ?dc = Some (GetSequence packet)"
    if "GetChannel ctx ?dp ?dc = Some channel" "Ordering channel = ORDERED"
      "fst (PacketExecuted k ctx packet ack) = Ok ()"
    using that
    by (auto simp add: PacketExecuted_def Let_def store_defs split: option.splits if_splits)
  have absent: "fst (PacketExecuted k ctx packet ack) = Err ErrSequenceReceiveNotFound"
    if "GetChannel ctx ?dp ?dc = Some channel" "Ordering channel = ORDERED"
      "State channel = OPEN" "GetNextSequenceRecv ctx ?dp ?dc = None"
    using that by (simp add: PacketExecuted_def Let_def store_defs)
  have other: "fst (PacketExecuted k ctx packet ack) = Err ErrInvalidPacket"
    if "GetChannel ctx ?dp ?dc = Some channel" "Ordering channel = ORDERED"
      "State channel = OPEN" "GetNextSequenceRecv ctx ?dp ?dc = Some n" "n \<noteq> GetSequence packet"
    for n
    using that by (auto simp add: PacketExecuted_def Let_def store_defs)
  have expected: "fst (PacketExecuted k ctx packet ack) = Ok ()
      \<and> GetNextSequenceRecv (snd (PacketExecuted k ctx packet ack)) ?dp ?dc
          = Some (GetSequence packet + 1)"
    if "GetChannel ctx ?dp ?dc = Some channel" "Ordering channel = ORDERED"
      "State channel = OPEN" "GetNextSequenceRecv ctx ?dp ?dc = Some (GetSequence packet)"
    using that by (simp add: PacketExecuted_def Let_def store_defs)
  have step: "unat (GetSequence packet + 1) = unat (GetSequence packet) + 1"
    if "GetSequence packet \<noteq> - 1"
    using that by (rule uint64_succ)
  have accepted: "fst (PacketExecuted k ctx packet ack) = Ok ()"
    if "GetChannel ctx ?dp ?dc = Some channel" "Ordering channel = UNORDERED"
      "State channel = OPEN"
    using that by (simp add: PacketExecuted_def Let_def)
  have not_written:
    "nextSequenceRecvs (snd (PacketExecuted k ctx packet ack)) = nextSequenceRecvs ctx"
    if "GetChannel ctx ?dp ?dc = Some channel" "Ordering channel = UNORDERED"
    using that by (simp add: PacketExecuted_def Let_def store_defs)
  have not_read: "PacketExecuted k (ctx\<lparr>nextSequenceRecvs := m\<rparr>) packet ack
          = (fst (PacketExecuted k ctx packet ack),
             (snd (PacketExecuted k ctx packet ack))\<lparr>nextSequenceRecvs := m\<rparr>)"
    if "GetChannel ctx ?dp ?dc = Some channel" "Ordering channel = UNORDERED" for m
    using that by (simp add: PacketExecuted_def Let_def store_defs)
  from only_when absent other expected step accepted not_written not_read
  show ?thesis by blast
qed

theorem PacketExecuted_ordered_delivery_witness:
  "fst (PacketExecuted exampleKeeper receivingChain examplePacket (Some [9])) = Ok ()
   \<and> GetNextSequenceRecv
        (snd (PacketExecuted exampleKeeper receivingChain examplePacket (Some [9])))
        (GetDestPort examplePacket) (GetDestChannel examplePacket)
       = Some (GetSequence examplePacket + 1)
   \<and> fst (PacketExecuted exampleKeeper receivingChain laterPacket (Some [9]))
       = Err ErrInvalidPacket
   \<and> fst (PacketExecuted exampleKeeper unorderedReceivingChain laterPacket None) = Ok ()
   \<and> nextSequenceRecvs (snd (PacketExecuted exampleKeeper unorderedReceivingChain laterPacket None))
       = nextSequenceRecvs unorderedReceivingChain"
proof -
  have ordered:
    "GetChannel receivingChain (GetDestPort examplePacket) (GetDestChannel examplePacket)
       = Some channelB"
    "GetChannel receivingChain (GetDestPort laterPacket) (GetDestChannel laterPacket)
       = Some channelB"
    "Ordering channelB = ORDERED" "State channelB = OPEN"
    "GetNextSequenceRecv receivingChain (GetDestPort examplePacket) (GetDestChannel examplePacket)
       = Some (GetSequence examplePacket)"
    "GetNextSequenceRecv receivingChain (GetDestPort laterPacket) (GetDestChannel laterPacket)
       = Some 5"
    "5 \<noteq> GetSequence laterPacket"
    by (simp_all add: example_defs store_defs)
  have unordered:
    "GetChannel unorderedReceivingChain (GetDestPort laterPacket) (GetDestChannel laterPacket)
       = Some (channelB\<lparr>Ordering := UNORDERED\<rparr>)"
    "Ordering (channelB\<lparr>Ordering := UNORDERED\<rparr>) = UNORDERED"
    "State (channelB\<lparr>Ordering := UNORDERED\<rparr>) = OPEN"
    by (simp_all add: example_defs store_defs)
  from ordered
    PacketExecuted_ordered_delivery
      [where ctx = receivingChain and packet = examplePacket and channel = channelB
         and k = exampleKeeper and ack = "Some [9]"]
  have a: "fst (PacketExecuted exampleKeeper receivingChain examplePacket (Some [9])) = Ok ()
     \<and> GetNextSequenceRecv
          (snd (PacketExecuted exampleKeeper receivingChain examplePacket (Some [9])))
          (GetDestPort examplePacket) (GetDestChannel examplePacket)
         = Some (GetSequence examplePacket + 1)"
    by blast
  from ordered
    PacketExecuted_ordered_delivery
      [where ctx = receivingChain and packet = laterPacket and channel = channelB
         and k = exampleKeeper and ack = "Some [9]"]
  have b: "fst (PacketExecuted exampleKeeper receivingChain laterPacket (Some [9]))
         = Err ErrInvalidPacket"
    by blast
  from unordered
    PacketExecuted_ordered_delivery
      [where ctx = unorderedReceivingChain and packet = laterPacket
         and channel = "channelB\<lparr>Ordering := UNORDERED\<rparr>"
         and k = exampleKeeper and ack = None]
  have c: "fst (PacketExecuted exampleKeeper unorderedReceivingChain laterPacket None) = Ok ()
     \<and> nextSequenceRecvs
          (snd (PacketExecuted exampleKeeper unorderedReceivingChain laterPacket None))
         = nextSequenceRecvs unorderedReceivingChain"
    by blast
  from a b c show ?thesis by blast
qed

subsection \<open>The state of the channel\<close>

text \<open>
  C4, as stated, fails. The claim that every operation rejects a channel that is not OPEN
  fails for SendPacket, which only rejects a CLOSED channel: with channel A in INIT the
  packet is sent.
\<close>

theorem SendPacket_on_INIT_channel_counterexample:
  "map_option State (GetChannel initSendingChain ''transfer'' ''channelA'') = Some INIT
   \<and> GetSourcePort examplePacket = ''transfer'' \<and> GetSourceChannel examplePacket = ''channelA''
   \<and> fst (SendPacket exampleKeeper initSendingChain examplePacket) = Ok ()"
  by (simp add: SendPacket_def example_defs store_defs)

text \<open>
  C4, amended. RecvPacket, PacketExecuted, AcknowledgePacket and CleanupPacket reject with
  InvalidChannelState, leaving the context as it was, whenever the channel they look up
  is in a state other than OPEN. SendPacket returns an error, leaving the context as it
  was, whenever the channel it looks up is CLOSED: InvalidChannelState when the packet
  passes validation, the validation's error otherwise. A channel in another state (INIT,
  TRYOPEN or OPEN) is not rejected by SendPacket for its state: the result of a call
  with a valid packet is never InvalidChannelState.
\<close>

theorem channel_state_checks:
  "(GetChannel ctx (GetDestPort packet) (GetDestChannel packet) = Some channel \<longrightarrow>
    State channel \<noteq> OPEN \<longrightarrow>
      RecvPacket k ctx packet pf proofHeight = (Err ErrInvalidChannelState, ctx)
      \<and> PacketExecuted k ctx packet ack = (Err ErrInvalidChannelState, ctx))
   \<and> (GetChannel ctx (GetSourcePort packet) (GetSourceChannel packet) = Some channel \<longrightarrow>
      State channel \<noteq> OPEN \<longrightarrow>
        AcknowledgePacket k ctx packet ack pf proofHeight = (Err ErrInvalidChannelState, ctx)
        \<and> CleanupPacket k ctx packet pf proofHeight nextSequenceRecv acknowledgement
            = (Err ErrInvalidChannelState, ctx))
   \<and> (GetChannel ctx (GetSourcePort packet) (GetSourceChannel packet) = Some channel \<longrightarrow>
      State channel = CLOSED \<longrightarrow>
        (\<exists>e. SendPacket k ctx packet = (Err e, ctx))
        \<and> (ValidateBasic k packet = None \<longrightarrow>
              SendPacket k ctx packet = (Err ErrInvalidChannelState, ctx)))
   \<and> (GetChannel ctx (GetSourcePort packet) (GetSourceChannel packet) = Some channel \<longrightarrow>
      State channel \<noteq> CLOSED \<longrightarrow>
      ValidateBasic k packet = None \<longrightarrow>
        fst (SendPacket k ctx packet) \<noteq> Err ErrInvalidChannelState)"
proof -
  have others:
    "RecvPacket k ctx packet pf proofHeight = (Err ErrInvalidChannelState, ctx)
     \<and> PacketExecuted k ctx packet ack = (Err ErrInvalidChannelState, ctx)"
    if "GetChannel ctx (GetDestPort packet) (GetDestChannel packet) = Some channel"
      "State channel \<noteq> OPEN"
    using that by (simp add: RecvPacket_def PacketExecuted_def)
  have others':
    "AcknowledgePacket k ctx packet ack pf proofHeight = (Err ErrInvalidChannelState, ctx)
     \<and> CleanupPacket k ctx packet pf proofHeight nextSequenceRecv acknowledgement
         = (Err ErrInvalidChannelState, ctx)"
    if "GetChannel ctx (GetSourcePort packet) (GetSourceChannel packet) = Some channel"
      "State channel \<noteq> OPEN"
    using that by (simp add: AcknowledgePacket_def CleanupPacket_def)
  have closed:
    "(\<exists>e. SendPacket k ctx packet = (Err e, ctx))
     \<and> (ValidateBasic k packet = None \<longrightarrow>
           SendPacket k ctx packet = (Err ErrInvalidChannelState, ctx))"
    if "GetChannel ctx (GetSourcePort packet) (GetSourceChannel packet) = Some channel"
      "State channel = CLOSED"
    using that by (auto simp add: SendPacket_def split: option.split)
  have admitted: "fst (SendPacket k ctx packet) \<noteq> Err ErrInvalidChannelState"
    if "GetChannel ctx (GetSourcePort packet) (GetSourceChannel packet) = Some channel"
      "State channel \<noteq> CLOSED" "ValidateBasic k packet = None"
    using that by (simp add: SendPacket_def split: option.split list.split)
  from others others' closed admitted show ?thesis by blast
qed

theorem channel_state_checks_witness:
  "RecvPacket exampleKeeper closedReceivingChain examplePacket () 70
     = (Err ErrInvalidChannelState, closedReceivingChain)
   \<and> PacketExecuted exampleKeeper closedReceivingChain examplePacket (Some [9])
     = (Err ErrInvalidChannelState, closedReceivingChain)
   \<and> AcknowledgePacket exampleKeeper closedSentChain examplePacket (Some [9]) () 70
     = (Err ErrInvalidChannelState, closedSentChain)
   \<and> CleanupPacket exampleKeeper closedSentChain examplePacket () 70 6 []
     = (Err ErrInvalidChannelState, closedSentChain)
   \<and> SendPacket exampleKeeper closedSentChain examplePacket
     = (Err ErrInvalidChannelState, closedSentChain)
   \<and> fst (SendPacket exampleKeeper initSendingChain examplePacket)
     \<noteq> Err ErrInvalidChannelState"
proof -
  have init:
    "GetChannel initSendingChain (GetSourcePort examplePacket) (GetSourceChannel examplePacket)
       = Some (channelA\<lparr>State := INIT\<rparr>)"
    "State (channelA\<lparr>State := INIT\<rparr>) \<noteq> CLOSED"
    "ValidateBasic exampleKeeper examplePacket = None"
    by (simp_all add: example_defs store_defs)
  from init
    channel_state_checks
      [where ctx = initSendingChain and packet = examplePacket
         and channel = "channelA\<lparr>State := INIT\<rparr>" and k = exampleKeeper]
  have c: "fst (SendPacket exampleKeeper initSendingChain examplePacket)
     \<noteq> Err ErrInvalidChannelState"
    by blast
  have recv:
    "GetChannel closedReceivingChain (GetDestPort examplePacket) (GetDestChannel examplePacket)
       = Some (channelB\<lparr>State := CLOSED\<rparr>)"
    "State (channelB\<lparr>State := CLOSED\<rparr>) \<noteq> OPEN"
    by (simp_all add: example_defs store_defs)
  have send:
    "GetChannel closedSentChain (GetSourcePort examplePacket) (GetSourceChannel examplePacket)
       = Some (channelA\<lparr>State := CLOSED\<rparr>)"
    "State (channelA\<lparr>State := CLOSED\<rparr>) \<noteq> OPEN"
    "State (channelA\<lparr>State := CLOSED\<rparr>) = CLOSED"
    "ValidateBasic exampleKeeper examplePacket = None"
    by (simp_all add: example_defs store_defs)
  from recv
    channel_state_checks
      [where ctx = closedReceivingChain and packet = examplePacket
         and channel = "channelB\<lparr>State := CLOSED\<rparr>" and k = exampleKeeper
         and pf = "()" and proofHeight = 70 and ack = "Some [9]"]
  have a: "RecvPacket exampleKeeper closedReceivingChain examplePacket () 70
       = (Err ErrInvalidChannelState, closedReceivingChain)
     \<and> PacketExecuted exampleKeeper closedReceivingChain examplePacket (Some [9])
       = (Err ErrInvalidChannelState, closedReceivingChain)"
    by blast
  from send
    channel_state_checks
      [where ctx = closedSentChain and packet = examplePacket
         and channel = "channelA\<lparr>State := CLOSED\<rparr>" and k = exampleKeeper
         and pf = "()" and proofHeight = 70 and ack = "Some [9]"
         and nextSequenceRecv = 6 and acknowledgement = "[]"]
  have b: "AcknowledgePacket exampleKeeper closedSentChain examplePacket (Some [9]) () 70
       = (Err ErrInvalidChannelState, closedSentChain)
     \<and> CleanupPacket exampleKeeper closedSentChain examplePacket () 70 6 []
       = (Err ErrInvalidChannelState, closedSentChain)
     \<and> SendPacket exampleKeeper closedSentChain examplePacket
       = (Err ErrInvalidChannelState, closedSentChain)"
    by blast
  from a b c show ?thesis by blast
qed


subsection \<open>RecvPacket rejects before it verifies\<close>

text \<open>
  C7, as stated, fails. RecvPacket looks its channel up under the packet's destination
  port and channel, so a packet whose destination channel names no channel fails with
  ChannelNotFound, not InvalidPacket.
\<close>

theorem RecvPacket_wrong_destination_counterexample:
  "GetChannel receivingChain (GetDestPort strayPacket) (GetDestChannel strayPacket) = None
   \<and> RecvPacket exampleKeeper receivingChain strayPacket () 70
       = (Err ErrChannelNotFound, receivingChain)"
  by (simp add: RecvPacket_def example_defs store_defs)

text \<open>
  C7, amended. A packet whose destination port and channel name no channel makes
  RecvPacket fail with ChannelNotFound, and a packet whose source port or channel is not
  the counterparty of the OPEN channel its destination names makes RecvPacket fail with
  InvalidPacket; in both cases the context comes back as it was, so no call of the
  verifier is recorded. In general the verifier is called only after the channel was
  found OPEN, the packet's source matched its counterparty, the first-hop connection was
  found OPEN and the block height was below the packet's timeout height, and then once.
\<close>

theorem RecvPacket_rejects_before_verification:
  "(GetChannel ctx (GetDestPort packet) (GetDestChannel packet) = None \<longrightarrow>
      RecvPacket k ctx packet pf proofHeight = (Err ErrChannelNotFound, ctx)
      \<and> verifierCalls (snd (RecvPacket k ctx packet pf proofHeight)) = verifierCalls ctx)
   \<and> (GetChannel ctx (GetDestPort packet) (GetDestChannel packet) = Some channel \<longrightarrow>
      State channel = OPEN \<longrightarrow>
      GetSourcePort packet \<noteq> PortID (Counterparty channel)
        \<or> GetSourceChannel packet \<noteq> ChannelID (Counterparty channel) \<longrightarrow>
        RecvPacket k ctx packet pf proofHeight = (Err ErrInvalidPacket, ctx)
        \<and> verifierCalls (snd (RecvPacket k ctx packet pf proofHeight)) = verifierCalls ctx)
   \<and> (verifierCalls (snd (RecvPacket k ctx packet pf proofHeight)) \<noteq> verifierCalls ctx \<longrightarrow>
        verifierCalls (snd (RecvPacket k ctx packet pf proofHeight))
          = verifierCalls ctx @
              [CallVerifyPacketCommitment
                 (GetSourcePort packet) (GetSourceChannel packet) (GetSequence packet)]
        \<and> (\<exists>channel hop hops connectionEnd.
              GetChannel ctx (GetDestPort packet) (GetDestChannel packet) = Some channel
              \<and> State channel = OPEN
              \<and> GetSourcePort packet = PortID (Counterparty channel)
              \<and> GetSourceChannel packet = ChannelID (Counterparty channel)
              \<and> ConnectionHops channel = hop # hops
              \<and> GetConnection ctx hop = Some connectionEnd
              \<and> GetState connectionEnd = CONN_OPEN
              \<and> BlockHeight ctx < GetTimeoutHeight packet))"
proof -
  have not_found: "RecvPacket k ctx packet pf proofHeight = (Err ErrChannelNotFound, ctx)"
    if "GetChannel ctx (GetDestPort packet) (GetDestChannel packet) = None"
    using that by (simp add: RecvPacket_def)
  have mismatch: "RecvPacket k ctx packet pf proofHeight = (Err ErrInvalidPacket, ctx)"
    if "GetChannel ctx (GetDestPort packet) (GetDestChannel packet) = Some channel"
      "State channel = OPEN"
      "GetSourcePort packet \<noteq> PortID (Counterparty channel)
        \<or> GetSourceChannel packet \<noteq> ChannelID (Counterparty channel)"
    using that by (auto simp add: RecvPacket_def)
  have called: "verifierCalls (snd (RecvPacket k ctx packet pf proofHeight))
          = verifierCalls ctx @
              [CallVerifyPacketCommitment
                 (GetSourcePort packet) (GetSourceChannel packet) (GetSequence packet)]
        \<and> (\<exists>channel hop hops connectionEnd.
              GetChannel ctx (GetDestPort packet) (GetDestChannel packet) = Some channel
              \<and> State channel = OPEN
              \<and> GetSourcePort packet = PortID (Counterparty channel)
              \<and> GetSourceChannel packet = ChannelID (Counterparty channel)
              \<and> ConnectionHops channel = hop # hops
              \<and> GetConnection ctx hop = Some connectionEnd
              \<and> GetState connectionEnd = CONN_OPEN
              \<and> BlockHeight ctx < GetTimeoutHeight packet)"
    if "verifierCalls (snd (RecvPacket k ctx packet pf proofHeight)) \<noteq> verifierCalls ctx"
    using that
    by (auto simp add: RecvPacket_def logCall_def not_le
          split: option.splits list.splits if_splits)
  from not_found mismatch called show ?thesis
    by (metis snd_conv)
qed

theorem RecvPacket_rejects_before_verification_witness:
  "RecvPacket exampleKeeper receivingChain strayPacket () 70
     = (Err ErrChannelNotFound, receivingChain)
   \<and> RecvPacket exampleKeeper receivingChain foreignPacket () 70
     = (Err ErrInvalidPacket, receivingChain)
   \<and> verifierCalls (snd (RecvPacket exampleKeeper receivingChain examplePacket () 70))
     = verifierCalls receivingChain @
         [CallVerifyPacketCommitment (GetSourcePort examplePacket)
            (GetSourceChannel examplePacket) (GetSequence examplePacket)]"
proof -
  have stray:
    "GetChannel receivingChain (GetDestPort strayPacket) (GetDestChannel strayPacket) = None"
    by (simp add: example_defs store_defs)
  have foreign:
    "GetChannel receivingChain (GetDestPort foreignPacket) (GetDestChannel foreignPacket)
       = Some channelB"
    "State channelB = OPEN"
    "GetSourceChannel foreignPacket \<noteq> ChannelID (Counterparty channelB)"
    by (simp_all add: example_defs store_defs)
  have received:
    "verifierCalls (snd (RecvPacket exampleKeeper receivingChain examplePacket () 70))
       \<noteq> verifierCalls receivingChain"
    by (simp add: RecvPacket_def example_defs store_defs)
  from stray
    RecvPacket_rejects_before_verification
      [where ctx = receivingChain and packet = strayPacket and k = exampleKeeper
         and pf = "()" and proofHeight = 70]
  have a: "RecvPacket exampleKeeper receivingChain strayPacket () 70
     = (Err ErrChannelNotFound, receivingChain)"
    by blast
  from foreign
    RecvPacket_rejects_before_verification
      [where ctx = receivingChain and packet = foreignPacket and channel = channelB
         and k = exampleKeeper and pf = "()" and proofHeight = 70]
  have b: "RecvPacket exampleKeeper receivingChain foreignPacket () 70
     = (Err ErrInvalidPacket, receivingChain)"
    by blast
  from received
    RecvPacket_rejects_before_verification
      [where ctx = receivingChain and packet = examplePacket and k = exampleKeeper
         and pf = "()" and proofHeight = 70]
  have c: "verifierCalls (snd (RecvPacket exampleKeeper receivingChain examplePacket () 70))
     = verifierCalls receivingChain @
         [CallVerifyPacketCommitment (GetSourcePort examplePacket)
            (GetSourceChannel examplePacket) (GetSequence examplePacket)]"
    by blast
  from a b c show ?thesis by blast
qed


subsection \<open>A packet is resolved at most once\<close>











subsection \<open>Rejected calls and the store\<close>

text \<open>
  SendPacket and CleanupPacket write after their last check, and RecvPacket and
  AcknowledgePacket do not write at all: a call of one of them that does not succeed
  leaves the four keyspaces as they were.
\<close>

lemma SendPacket_rejected:
  "fst (SendPacket k ctx packet) \<noteq> Ok () \<Longrightarrow> snd (SendPacket k ctx packet) = ctx"
  by (auto simp add: SendPacket_def split: option.splits list.splits if_splits)

lemma CleanupPacket_rejected:
  "fst (CleanupPacket k ctx packet pf proofHeight nextSequenceRecv acknowledgement) \<noteq> Ok packet
   \<Longrightarrow> keyspaces (snd (CleanupPacket k ctx packet pf proofHeight nextSequenceRecv acknowledgement))
       = keyspaces ctx"
  by (auto simp add: CleanupPacket_def Let_def keyspaces_def logCall_def
        split: option.splits list.splits if_splits order.splits)

text \<open>
  C2. A call that returns an error must leave the store as it was. PacketExecuted does
  not: it writes the acknowledgement before the ordered branch checks the sequence. On an
  OPEN ORDERED channel, called with an acknowledgement and a sequence that is not the
  stored next sequence to receive, it returns SequenceReceiveNotFound (no counter) or
  InvalidPacket (another counter), and the context it returns holds the acknowledgement
  under the packet's destination port, destination channel and sequence.
\<close>

theorem PacketExecuted_rejected_after_write:
  assumes "GetChannel ctx (GetDestPort packet) (GetDestChannel packet) = Some channel"
    and "State channel = OPEN" and "Ordering channel = ORDERED"
    and "GetNextSequenceRecv ctx (GetDestPort packet) (GetDestChannel packet)
           \<noteq> Some (GetSequence packet)"
  shows "PacketExecuted k ctx packet (Some ackBytes)
           = (Err (case GetNextSequenceRecv ctx (GetDestPort packet) (GetDestChannel packet) of
                     None \<Rightarrow> ErrSequenceReceiveNotFound
                   | Some n \<Rightarrow> ErrInvalidPacket),
              SetPacketAcknowledgement ctx (GetDestPort packet) (GetDestChannel packet)
                (GetSequence packet) (CommitAcknowledgement k (Some ackBytes)))
         \<and> packetAcknowledgements (snd (PacketExecuted k ctx packet (Some ackBytes)))
              (GetDestPort packet, GetDestChannel packet, GetSequence packet)
            = Some (CommitAcknowledgement k (Some ackBytes))"
  using assms
  by (auto simp add: PacketExecuted_def Let_def store_defs split: option.splits)

text \<open>
  On the receiving chain (channel B OPEN and ORDERED, next sequence to receive 5) the
  call for the packet with sequence 7 and an acknowledgement is rejected with
  InvalidPacket, and the context it returns holds the acknowledgement of sequence 7,
  which the context before the call did not: the keyspaces have changed.
\<close>

theorem PacketExecuted_partial_write:
  "fst (PacketExecuted exampleKeeper receivingChain laterPacket (Some [9]))
     = Err ErrInvalidPacket
   \<and> packetAcknowledgements receivingChain (''transfer'', ''channelB'', 7) = None
   \<and> packetAcknowledgements
        (snd (PacketExecuted exampleKeeper receivingChain laterPacket (Some [9])))
        (''transfer'', ''channelB'', 7) = Some [2, 9]
   \<and> keyspaces (snd (PacketExecuted exampleKeeper receivingChain laterPacket (Some [9])))
       \<noteq> keyspaces receivingChain"
proof -
  have setting:
    "GetChannel receivingChain (GetDestPort laterPacket) (GetDestChannel laterPacket)
       = Some channelB"
    "State channelB = OPEN" "Ordering channelB = ORDERED"
    "GetNextSequenceRecv receivingChain (GetDestPort laterPacket) (GetDestChannel laterPacket)
       \<noteq> Some (GetSequence laterPacket)"
    by (simp_all add: example_defs store_defs)
  have concrete:
    "GetNextSequenceRecv receivingChain ''transfer'' ''channelB'' = Some 5"
    "GetDestPort laterPacket = ''transfer''" "GetDestChannel laterPacket = ''channelB''"
    "GetSequence laterPacket = 7"
    "CommitAcknowledgement exampleKeeper (Some [9]) = [2, 9]"
    by (simp_all add: example_defs store_defs)
  note run = PacketExecuted_rejected_after_write
    [OF setting, where k = exampleKeeper and ackBytes = "[9]"]
  have result: "fst (PacketExecuted exampleKeeper receivingChain laterPacket (Some [9]))
     = Err ErrInvalidPacket"
    using run by (simp add: concrete)
  have before: "packetAcknowledgements receivingChain (''transfer'', ''channelB'', 7) = None"
    by (simp add: example_defs)
  have after: "packetAcknowledgements
        (snd (PacketExecuted exampleKeeper receivingChain laterPacket (Some [9])))
        (''transfer'', ''channelB'', 7) = Some [2, 9]"
    using run concrete by metis
  from before after
  have "packetAcknowledgements
          (snd (PacketExecuted exampleKeeper receivingChain laterPacket (Some [9])))
        \<noteq> packetAcknowledgements receivingChain"
    by (metis option.distinct(1))
  then have "keyspaces (snd (PacketExecuted exampleKeeper receivingChain laterPacket (Some [9])))
       \<noteq> keyspaces receivingChain"
    by (simp add: keyspaces_def)
  with result before after show ?thesis by simp
qed

end
